theory Spec2Isabelle
  imports Main "HOL-Library.Multiset" "HOL-Library.AList"
begin

section \<open>JavaScript values\<close>

text \<open>
  The storage layer and the route handlers work on untyped request payloads
  (\<^verbatim>\<open>any\<close>).  A payload is a JSON value; a property that is missing
  (JavaScript's \<^verbatim>\<open>undefined\<close>) is \<open>None\<close> of \<open>json option\<close>.
  An object is a finite map from key names to values.  Numbers are the integers
  (identifiers and database keys are integers; fractions do not occur in the
  paths modelled here).
\<close>

datatype json =
    JNull
  | JBool bool
  | JNum int
  | JStr string
  | JArr "json list"
  | JObj "string \<Rightarrow> json option"

type_synonym jsobj = "string \<Rightarrow> json option"

fun is_null :: "json \<Rightarrow> bool" where
  "is_null JNull = True"
| "is_null _ = False"

text \<open>\<^verbatim>\<open>v === true\<close>.\<close>

fun is_true :: "json option \<Rightarrow> bool" where
  "is_true (Some (JBool b)) = b"
| "is_true _ = False"

text \<open>Truthiness, as \<^verbatim>\<open>if (v)\<close>, \<^verbatim>\<open>!v\<close>, \<^verbatim>\<open>a || b\<close> and \<^verbatim>\<open>a && b\<close> test it.\<close>

fun truthy :: "json option \<Rightarrow> bool" where
  "truthy None = False"
| "truthy (Some JNull) = False"
| "truthy (Some (JBool b)) = b"
| "truthy (Some (JNum n)) = (n \<noteq> 0)"
| "truthy (Some (JStr s)) = (s \<noteq> [])"
| "truthy (Some (JArr xs)) = True"
| "truthy (Some (JObj m)) = True"

text \<open>
  \<^verbatim>\<open>v.k\<close> for a value \<open>v\<close> that is neither \<^verbatim>\<open>null\<close> nor
  \<^verbatim>\<open>undefined\<close> (the caller has tested it): only objects carry the keys the
  code asks for.
\<close>

fun field :: "json \<Rightarrow> string \<Rightarrow> json option" where
  "field (JObj m) k = m k"
| "field _ k = None"

text \<open>\<^verbatim>\<open>a && a.k\<close>: the guarded access, whose value is tested for truthiness only.\<close>

fun ofield :: "json option \<Rightarrow> string \<Rightarrow> json option" where
  "ofield None k = None"
| "ofield (Some v) k = (if truthy (Some v) then field v k else None)"

text \<open>Decimal rendering of numbers, as \<^verbatim>\<open>String(n)\<close> and \<^verbatim>\<open>n.toString()\<close> give it.\<close>

definition digit_char :: "nat \<Rightarrow> char" where
  "digit_char d = char_of (48 + d)"

function show_nat :: "nat \<Rightarrow> string" where
  "show_nat n = (if n < 10 then [digit_char n] else show_nat (n div 10) @ [digit_char (n mod 10)])"
  by pat_completeness auto
termination
  by (relation "measure id") auto

declare show_nat.simps [simp del]

definition show_int :: "int \<Rightarrow> string" where
  "show_int i = (if i < 0 then CHR ''-'' # show_nat (nat (- i)) else show_nat (nat i))"

fun join_comma :: "string list \<Rightarrow> string" where
  "join_comma [] = []"
| "join_comma [s] = s"
| "join_comma (s # t # ss) = s @ '','' @ join_comma (t # ss)"

text \<open>\<^verbatim>\<open>String(v)\<close>.  An array joins the strings of its elements, \<^verbatim>\<open>null\<close> elements as the empty string.\<close>

fun js_String :: "json option \<Rightarrow> string" where
  "js_String None = ''undefined''"
| "js_String (Some JNull) = ''null''"
| "js_String (Some (JBool b)) = (if b then ''true'' else ''false'')"
| "js_String (Some (JNum n)) = show_int n"
| "js_String (Some (JStr s)) = s"
| "js_String (Some (JArr xs)) =
     join_comma (map (\<lambda>x. if is_null x then [] else js_String (Some x)) xs)"
| "js_String (Some (JObj m)) = ''[object Object]''"

text \<open>
  Object spread \<^verbatim>\<open>{...v}\<close>: the own enumerable properties of \<open>v\<close>.  A string
  and an array spread their indices; \<^verbatim>\<open>null\<close>, \<^verbatim>\<open>undefined\<close>,
  numbers and booleans spread nothing.
\<close>

definition index_keys :: "json list \<Rightarrow> jsobj" where
  "index_keys xs = map_of (zip (map show_nat [0..<length xs]) xs)"

fun spread :: "json option \<Rightarrow> jsobj" where
  "spread (Some (JObj m)) = m"
| "spread (Some (JArr xs)) = index_keys xs"
| "spread (Some (JStr s)) = index_keys (map (\<lambda>c. JStr [c]) s)"
| "spread _ = Map.empty"

text \<open>\<^verbatim>\<open>typeof v === 'object'\<close> (true of \<^verbatim>\<open>null\<close>, arrays and objects).\<close>

fun typeof_object :: "json option \<Rightarrow> bool" where
  "typeof_object (Some JNull) = True"
| "typeof_object (Some (JArr xs)) = True"
| "typeof_object (Some (JObj m)) = True"
| "typeof_object _ = False"

text \<open>
  \<^verbatim>\<open>JSON.parse\<close> is the runtime's; the functions below take it as the parameter
  \<open>parse\<close>, \<open>None\<close> where it throws a \<^verbatim>\<open>SyntaxError\<close>.
\<close>

type_synonym json_parse = "string \<Rightarrow> json option"

datatype exn = TypeError | SyntaxError | DbError | InvalidVisibility | SaveFailed

section \<open>The relational store\<close>

record canvas =
  canvas_id :: nat
  canvas_name :: string
  canvas_userId :: "nat option"
  createdAt :: nat
  updatedAt :: nat
  thumbnail :: "string option"
  visibility :: string
  isPublic :: bool

record element_row =
  er_id :: nat
  er_canvas_id :: nat
  er_type :: json
  er_element_type :: json
  er_content :: json
  er_position :: json
  er_size :: json
  er_style :: json
  er_original_question :: json

record connection_row =
  cr_id :: nat
  cr_canvas_id :: nat
  cr_source_id :: "nat option"
  cr_target_id :: "nat option"
  cr_type :: json
  cr_animated :: json
  cr_style :: json

text \<open>
  The tables in insertion order, the two \<^verbatim>\<open>serial\<close> sequences, and the
  schedule of the statements still to come: \<open>True\<close> where the statement throws.
  An empty schedule means that every statement succeeds.
\<close>

record db =
  canvases :: "canvas list"
  collaborators :: "(nat \<times> nat) list"
  canvas_elements :: "element_row list"
  connections :: "connection_row list"
  element_seq :: nat
  connection_seq :: nat
  faults :: "bool list"

definition next_fails :: "db \<Rightarrow> bool" where
  "next_fails d = (case faults d of [] \<Rightarrow> False | b # bs \<Rightarrow> b)"

definition tick :: "db \<Rightarrow> db" where
  "tick d = d\<lparr>faults := tl (faults d)\<rparr>"

text \<open>One SQL statement: it throws when the schedule says so, and runs otherwise.\<close>

definition statement :: "(db \<Rightarrow> 'a \<times> db) \<Rightarrow> db \<Rightarrow> (exn + 'a) \<times> db" where
  "statement f d =
     (if next_fails d then (Inl DbError, tick d)
      else (case f (tick d) of (r, d') \<Rightarrow> (Inr r, d')))"

subsection \<open>updateCanvasVisibility\<close>

definition valid_visibilities :: "string list" where
  "valid_visibilities = [''private'', ''collaborative'', ''public'']"

definition set_visibility :: "nat \<Rightarrow> string \<Rightarrow> bool \<Rightarrow> nat \<Rightarrow> canvas \<Rightarrow> canvas" where
  "set_visibility cid v p now c =
     (if canvas_id c = cid then c\<lparr>visibility := v, isPublic := p, updatedAt := now\<rparr> else c)"

text \<open>
  \<^verbatim>\<open>db.update(canvases).set({visibility, isPublic, updatedAt}).where(eq(canvases.id, id)).returning()\<close>:
  one statement; the first returned row is the result.
\<close>

definition update_visibility_stmt :: "nat \<Rightarrow> string \<Rightarrow> bool \<Rightarrow> nat \<Rightarrow> db \<Rightarrow> canvas option \<times> db" where
  "update_visibility_stmt cid v p now d =
     (let cs = map (set_visibility cid v p now) (canvases d)
      in (find (\<lambda>c. canvas_id c = cid) cs, d\<lparr>canvases := cs\<rparr>))"

definition updateCanvasVisibility :: "nat \<Rightarrow> string \<Rightarrow> nat \<Rightarrow> db \<Rightarrow> (exn + canvas option) \<times> db" where
  "updateCanvasVisibility cid v now d =
     (if v \<notin> set valid_visibilities then (Inl InvalidVisibility, d)
      else let p = (v = ''public'') in statement (update_visibility_stmt cid v p now) d)"

subsection \<open>A sample store\<close>

definition demo_canvas :: canvas where
  "demo_canvas = \<lparr>canvas_id = 1, canvas_name = ''c'', canvas_userId = Some 7, createdAt = 0,
     updatedAt = 0, thumbnail = None, visibility = ''private'', isPublic = False\<rparr>"

definition demo_db :: db where
  "demo_db = \<lparr>canvases = [demo_canvas], collaborators = [], canvas_elements = [],
     connections = [], element_seq = 0, connection_seq = 0, faults = []\<rparr>"

section \<open>The state replacer\<close>

text \<open>
  \<open>replaceCanvasState\<close> of the storage class: two \<^verbatim>\<open>DELETE\<close> statements, one
  \<^verbatim>\<open>INSERT\<close> per well-formed element, the resolution of the connections'
  endpoints, one \<^verbatim>\<open>INSERT\<close> per valid connection and the \<^verbatim>\<open>UPDATE\<close> of the
  canvas timestamp, all inside one \<^verbatim>\<open>try\<close> whose \<^verbatim>\<open>catch\<close> returns
  \<^verbatim>\<open>false\<close>.  The set \<^verbatim>\<open>storedElements\<close> is written and never read, and is
  left out.
\<close>

definition and_then ::
  "(exn + 'a) \<times> db \<Rightarrow> ('a \<Rightarrow> db \<Rightarrow> (exn + 'b) \<times> db) \<Rightarrow> (exn + 'b) \<times> db" where
  "and_then m f = (case m of (Inl e, d) \<Rightarrow> (Inl e, d) | (Inr a, d) \<Rightarrow> f a d)"

record id_maps =
  clientIdToDbId :: "string \<Rightarrow> nat option"
  additionalIdMap :: "string \<Rightarrow> string option"

definition empty_maps :: id_maps where
  "empty_maps = \<lparr>clientIdToDbId = Map.empty, additionalIdMap = Map.empty\<rparr>"

text \<open>\<^verbatim>\<open>typeof v === 'string' ? JSON.parse(v) : v\<close>.\<close>

fun parse_if_string :: "json_parse \<Rightarrow> json \<Rightarrow> json option" where
  "parse_if_string parse (JStr s) = parse s"
| "parse_if_string parse v = Some v"

text \<open>
  The alternate identifiers of an element.  Both blocks sit in a \<^verbatim>\<open>try\<close> of
  their own: a parse error, or a property read on a parsed \<^verbatim>\<open>null\<close>, only
  skips the block.
\<close>

definition alias_of :: "json \<Rightarrow> string \<Rightarrow> string \<Rightarrow> (string \<Rightarrow> string option) \<Rightarrow> (string \<Rightarrow> string option)" where
  "alias_of obj k clientId am =
     (if truthy (field obj k) then am(js_String (field obj k) \<mapsto> clientId) else am)"

definition harvest_content :: "json_parse \<Rightarrow> json option \<Rightarrow> string \<Rightarrow> (string \<Rightarrow> string option) \<Rightarrow> (string \<Rightarrow> string option)" where
  "harvest_content parse content clientId am =
     (case content of
        None \<Rightarrow> am
      | Some c \<Rightarrow>
          if \<not> truthy (Some c) then am
          else (case parse_if_string parse c of
                  None \<Rightarrow> am
                | Some JNull \<Rightarrow> am
                | Some contentData \<Rightarrow>
                    alias_of contentData ''_clientId'' clientId
                      (alias_of contentData ''clientId'' clientId am)))"

definition harvest_style :: "json_parse \<Rightarrow> json option \<Rightarrow> string \<Rightarrow> (string \<Rightarrow> string option) \<Rightarrow> (string \<Rightarrow> string option)" where
  "harvest_style parse style clientId am =
     (case style of
        None \<Rightarrow> am
      | Some s \<Rightarrow>
          if \<not> truthy (Some s) then am
          else (case parse_if_string parse s of
                  None \<Rightarrow> am
                | Some JNull \<Rightarrow> am
                | Some styleData \<Rightarrow> alias_of styleData ''clientId'' clientId am))"

text \<open>\<^verbatim>\<open>a || b\<close> on values.\<close>

definition or_else :: "json option \<Rightarrow> json \<Rightarrow> json" where
  "or_else v dflt = (case v of None \<Rightarrow> dflt | Some x \<Rightarrow> if truthy (Some x) then x else dflt)"

definition default_position :: json where
  "default_position = JObj [''x'' \<mapsto> JNum 0, ''y'' \<mapsto> JNum 0]"

definition default_size :: json where
  "default_size = JObj [''width'' \<mapsto> JNum 300, ''height'' \<mapsto> JNum 200]"

text \<open>The row an element is stored as; the store assigns \<open>er_id\<close>.\<close>

definition element_values :: "nat \<Rightarrow> json \<Rightarrow> element_row" where
  "element_values canvasId el =
     (let clientId = js_String (field el ''id'');
          nodeType = or_else (field el ''type'') (JStr ''textElement'');
          contentType = or_else (ofield (field el ''data'') ''type'') (JStr ''text'');
          originalQuestion = or_else (ofield (field el ''data'') ''originalQuestion'') (JStr []);
          styleObj = (spread (Some (or_else (field el ''style'') (JObj Map.empty))))
                       (''clientId'' \<mapsto> JStr clientId);
          contentObj = (spread (Some (or_else (ofield (field el ''data'') ''content'') (JObj Map.empty))))
                       (''clientId'' \<mapsto> JStr clientId, ''_clientId'' \<mapsto> JStr clientId)
      in \<lparr>er_id = 0, er_canvas_id = canvasId, er_type = nodeType, er_element_type = contentType,
          er_content = JObj contentObj,
          er_position = or_else (field el ''position'') default_position,
          er_size = or_else (field el ''size'') default_size,
          er_style = JObj styleObj,
          er_original_question = originalQuestion\<rparr>)"

text \<open>\<^verbatim>\<open>INSERT INTO canvas_elements ... RETURNING id\<close>: the next value of the sequence.\<close>

definition insert_element_stmt :: "element_row \<Rightarrow> db \<Rightarrow> nat \<times> db" where
  "insert_element_stmt r d =
     (let i = Suc (element_seq d)
      in (i, d\<lparr>canvas_elements := canvas_elements d @ [r\<lparr>er_id := i\<rparr>], element_seq := i\<rparr>))"

text \<open>
  One turn of the loop over the elements.  Reading \<^verbatim>\<open>el.type\<close> of a
  \<^verbatim>\<open>null\<close> element throws; an element with no (truthy) type is skipped.
\<close>

definition process_element :: "json_parse \<Rightarrow> nat \<Rightarrow> json \<Rightarrow> id_maps \<Rightarrow> db \<Rightarrow> (exn + id_maps) \<times> db" where
  "process_element parse canvasId el st d =
     (if is_null el then (Inl TypeError, d)
      else if \<not> truthy (field el ''type'') then (Inr st, d)
      else
        let clientId = js_String (field el ''id'');
            am1 = harvest_content parse (ofield (field el ''data'') ''content'') clientId (additionalIdMap st);
            am2 = harvest_style parse (field el ''style'') clientId am1
        in and_then (statement (insert_element_stmt (element_values canvasId el)) d)
             (\<lambda>dbId d'. (Inr \<lparr>clientIdToDbId = (clientIdToDbId st)(clientId \<mapsto> dbId),
                                additionalIdMap = am2\<rparr>, d')))"

fun insert_elements :: "json_parse \<Rightarrow> nat \<Rightarrow> json list \<Rightarrow> id_maps \<Rightarrow> db \<Rightarrow> (exn + id_maps) \<times> db" where
  "insert_elements parse canvasId [] st d = (Inr st, d)"
| "insert_elements parse canvasId (el # els) st d =
     and_then (process_element parse canvasId el st d) (insert_elements parse canvasId els)"

subsection \<open>Resolving the endpoints of the connections\<close>

text \<open>Truthiness of a \<^verbatim>\<open>string | null\<close>.\<close>

definition str_truthy :: "string option \<Rightarrow> bool" where
  "str_truthy r = (case r of None \<Rightarrow> False | Some s \<Rightarrow> s \<noteq> [])"

definition resolveClientId :: "id_maps \<Rightarrow> string \<Rightarrow> string option" where
  "resolveClientId st i =
     (if clientIdToDbId st i \<noteq> None then Some i
      else if additionalIdMap st i \<noteq> None then additionalIdMap st i
      else None)"

text \<open>
  The style a connection is inspected through; \<^verbatim>\<open>JSON.parse\<close> is not guarded
  here, so a string that does not parse throws out of the whole call.
\<close>

fun conn_style :: "json_parse \<Rightarrow> json \<Rightarrow> exn + json" where
  "conn_style parse (JStr s) = (case parse s of None \<Rightarrow> Inl SyntaxError | Some v \<Rightarrow> Inr v)"
| "conn_style parse (JObj m) = Inr (JObj m)"
| "conn_style parse (JArr xs) = Inr (JArr xs)"
| "conn_style parse JNull = Inr JNull"
| "conn_style parse v = Inr (JObj Map.empty)"

text \<open>\<open>sourceFromStyle\<close> and \<open>targetFromStyle\<close>: the later assignment wins.\<close>

definition from_style :: "json \<Rightarrow> string \<Rightarrow> string \<Rightarrow> string option" where
  "from_style style idKey clientKey =
     (let a = (if truthy (field style idKey) then Some (js_String (field style idKey)) else None)
      in if truthy (field style clientKey) then Some (js_String (field style clientKey)) else a)"

definition style_ids :: "json_parse \<Rightarrow> json option \<Rightarrow> exn + (string option \<times> string option)" where
  "style_ids parse v =
     (case v of
        None \<Rightarrow> Inr (None, None)
      | Some s \<Rightarrow>
          if \<not> truthy (Some s) then Inr (None, None)
          else (case conn_style parse s of
                  Inl e \<Rightarrow> Inl e
                | Inr JNull \<Rightarrow> Inl TypeError
                | Inr style \<Rightarrow>
                    Inr (from_style style ''sourceId'' ''sourceClientId'',
                         from_style style ''targetId'' ''targetClientId'')))"

fun set_field :: "json \<Rightarrow> string \<Rightarrow> json \<Rightarrow> json" where
  "set_field (JObj m) k v = JObj (m(k \<mapsto> v))"
| "set_field x k v = x"

text \<open>
  One endpoint: the connection is rewritten only when its own identifier did not resolve
  and the identifier from its style did.
\<close>

definition resolve_end :: "id_maps \<Rightarrow> string \<Rightarrow> string option \<Rightarrow> string \<Rightarrow> json \<Rightarrow> json" where
  "resolve_end st original fromStyle k conn =
     (if \<not> str_truthy (resolveClientId st original) \<and> str_truthy fromStyle
      then (case fromStyle of
              None \<Rightarrow> conn
            | Some alt \<Rightarrow>
                (case resolveClientId st alt of
                   None \<Rightarrow> conn
                 | Some r \<Rightarrow> if r \<noteq> [] then set_field conn k (JStr r) else conn))
      else conn)"

definition preprocess_conn :: "json_parse \<Rightarrow> id_maps \<Rightarrow> json \<Rightarrow> exn + json" where
  "preprocess_conn parse st conn =
     (if is_null conn then Inl TypeError
      else if \<not> truthy (field conn ''source'') \<or> \<not> truthy (field conn ''target'') then Inr conn
      else
        let originalSourceId = js_String (field conn ''source'');
            originalTargetId = js_String (field conn ''target'')
        in (case style_ids parse (field conn ''style'') of
              Inl e \<Rightarrow> Inl e
            | Inr (sourceFromStyle, targetFromStyle) \<Rightarrow>
                Inr (resolve_end st originalTargetId targetFromStyle ''target''
                      (resolve_end st originalSourceId sourceFromStyle ''source'' conn))))"

fun preprocess_conns :: "json_parse \<Rightarrow> id_maps \<Rightarrow> json list \<Rightarrow> exn + json list" where
  "preprocess_conns parse st [] = Inr []"
| "preprocess_conns parse st (c # cs) =
     (case preprocess_conn parse st c of
        Inl e \<Rightarrow> Inl e
      | Inr c' \<Rightarrow> (case preprocess_conns parse st cs of Inl e \<Rightarrow> Inl e | Inr cs' \<Rightarrow> Inr (c' # cs')))"

text \<open>The filter \<open>validConnections\<close>.\<close>

definition valid_connection :: "id_maps \<Rightarrow> json \<Rightarrow> bool" where
  "valid_connection st conn =
     (truthy (field conn ''source'') \<and> truthy (field conn ''target'') \<and>
      clientIdToDbId st (js_String (field conn ''source'')) \<noteq> None \<and>
      clientIdToDbId st (js_String (field conn ''target'')) \<noteq> None)"

definition connection_style :: "json \<Rightarrow> string \<Rightarrow> string \<Rightarrow> nat \<Rightarrow> nat \<Rightarrow> jsobj" where
  "connection_style conn sourceClientId targetClientId sourceDbId targetDbId =
     [''sourceClientId'' \<mapsto> JStr sourceClientId,
      ''targetClientId'' \<mapsto> JStr targetClientId,
      ''sourceDbId'' \<mapsto> JNum (int sourceDbId),
      ''targetDbId'' \<mapsto> JNum (int targetDbId),
      ''type'' \<mapsto> or_else (field conn ''type'') (JStr ''smoothstep''),
      ''stroke'' \<mapsto> or_else (ofield (field conn ''style'') ''stroke'') (JStr ''#6366f1''),
      ''strokeWidth'' \<mapsto> or_else (ofield (field conn ''style'') ''strokeWidth'') (JNum 2)]
     ++ spread (Some (or_else (field conn ''style'') (JObj Map.empty)))"

definition connection_values :: "nat \<Rightarrow> json \<Rightarrow> nat \<Rightarrow> nat \<Rightarrow> connection_row" where
  "connection_values canvasId conn sourceDbId targetDbId =
     \<lparr>cr_id = 0, cr_canvas_id = canvasId, cr_source_id = Some sourceDbId,
      cr_target_id = Some targetDbId,
      cr_type = or_else (field conn ''type'') (JStr ''default''),
      cr_animated = JBool (is_true (field conn ''animated'')),
      cr_style = JObj (connection_style conn (js_String (field conn ''source''))
                        (js_String (field conn ''target'')) sourceDbId targetDbId)\<rparr>"

definition insert_connection_stmt :: "connection_row \<Rightarrow> db \<Rightarrow> nat \<times> db" where
  "insert_connection_stmt r d =
     (let i = Suc (connection_seq d)
      in (i, d\<lparr>connections := connections d @ [r\<lparr>cr_id := i\<rparr>], connection_seq := i\<rparr>))"

text \<open>One turn of the loop over the valid connections; a database id of \<open>0\<close> is falsy.\<close>

definition insert_connection :: "nat \<Rightarrow> id_maps \<Rightarrow> json \<Rightarrow> db \<Rightarrow> (exn + unit) \<times> db" where
  "insert_connection canvasId st conn d =
     (case (clientIdToDbId st (js_String (field conn ''source'')),
            clientIdToDbId st (js_String (field conn ''target''))) of
        (Some sourceDbId, Some targetDbId) \<Rightarrow>
          if sourceDbId = 0 \<or> targetDbId = 0 then (Inr (), d)
          else and_then
                 (statement (insert_connection_stmt (connection_values canvasId conn sourceDbId targetDbId)) d)
                 (\<lambda>i d'. (Inr (), d'))
      | _ \<Rightarrow> (Inr (), d))"

fun insert_connections :: "nat \<Rightarrow> id_maps \<Rightarrow> json list \<Rightarrow> db \<Rightarrow> (exn + unit) \<times> db" where
  "insert_connections canvasId st [] d = (Inr (), d)"
| "insert_connections canvasId st (c # cs) d =
     and_then (insert_connection canvasId st c d) (\<lambda>u. insert_connections canvasId st cs)"

subsection \<open>The whole replacement\<close>

definition delete_elements_stmt :: "nat \<Rightarrow> db \<Rightarrow> unit \<times> db" where
  "delete_elements_stmt canvasId d =
     ((), d\<lparr>canvas_elements := filter (\<lambda>r. er_canvas_id r \<noteq> canvasId) (canvas_elements d)\<rparr>)"

definition delete_connections_stmt :: "nat \<Rightarrow> db \<Rightarrow> unit \<times> db" where
  "delete_connections_stmt canvasId d =
     ((), d\<lparr>connections := filter (\<lambda>r. cr_canvas_id r \<noteq> canvasId) (connections d)\<rparr>)"

definition touch :: "nat \<Rightarrow> nat \<Rightarrow> canvas \<Rightarrow> canvas" where
  "touch canvasId now c = (if canvas_id c = canvasId then c\<lparr>updatedAt := now\<rparr> else c)"

definition touch_canvas_stmt :: "nat \<Rightarrow> nat \<Rightarrow> db \<Rightarrow> unit \<times> db" where
  "touch_canvas_stmt canvasId now d = ((), d\<lparr>canvases := map (touch canvasId now) (canvases d)\<rparr>)"

definition replace_body :: "json_parse \<Rightarrow> nat \<Rightarrow> nat \<Rightarrow> json list \<Rightarrow> json list \<Rightarrow> db \<Rightarrow> (exn + unit) \<times> db" where
  "replace_body parse now canvasId elements edgeConnections d =
     and_then (statement (delete_elements_stmt canvasId) d) (\<lambda>u d1.
     and_then (statement (delete_connections_stmt canvasId) d1) (\<lambda>u d2.
     and_then (insert_elements parse canvasId elements empty_maps d2) (\<lambda>st d3.
       (case preprocess_conns parse st edgeConnections of
          Inl e \<Rightarrow> (Inl e, d3)
        | Inr conns \<Rightarrow>
            and_then (insert_connections canvasId st (filter (valid_connection st) conns) d3) (\<lambda>u d4.
            statement (touch_canvas_stmt canvasId now) d4)))))"

definition replaceCanvasState :: "json_parse \<Rightarrow> nat \<Rightarrow> nat \<Rightarrow> json list \<Rightarrow> json list \<Rightarrow> db \<Rightarrow> bool \<times> db" where
  "replaceCanvasState parse now canvasId elements edgeConnections d =
     (case replace_body parse now canvasId elements edgeConnections d of
        (Inl e, d') \<Rightarrow> (False, d')
      | (Inr u, d') \<Rightarrow> (True, d'))"

section \<open>The save handler\<close>

text \<open>
  \<^verbatim>\<open>PUT /api/canvases/:id/state\<close>.  The request as the handler reads it: the
  session's user, the parsed path parameter (\<open>None\<close> for \<^verbatim>\<open>NaN\<close>) and the two
  fields of the body.  A response is its status and the JSON body; the time stamps
  are the clock value \<open>now\<close>, and the text of a caught error is not modelled.
\<close>

record request =
  authenticated :: bool
  user_id :: nat
  user_isAdmin :: bool
  param_id :: "int option"
  body_elements :: "json option"
  body_connections :: "json option"

record response =
  status :: nat
  payload :: jsobj

subsection \<open>Storage calls of the handler\<close>

definition select_canvas_stmt :: "int \<Rightarrow> db \<Rightarrow> canvas option \<times> db" where
  "select_canvas_stmt i d = (find (\<lambda>c. int (canvas_id c) = i) (canvases d), d)"

definition getCanvas :: "int \<Rightarrow> db \<Rightarrow> (exn + canvas option) \<times> db" where
  "getCanvas i d = statement (select_canvas_stmt i) d"

definition select_collaborator_stmt :: "int \<Rightarrow> nat \<Rightarrow> db \<Rightarrow> bool \<times> db" where
  "select_collaborator_stmt i u d = (\<exists>p \<in> set (collaborators d). int (fst p) = i \<and> snd p = u, d)"

text \<open>\<open>isCollaborator\<close> catches the error of its statement and answers \<^verbatim>\<open>false\<close>.\<close>

definition isCollaborator :: "int \<Rightarrow> nat \<Rightarrow> db \<Rightarrow> bool \<times> db" where
  "isCollaborator i u d =
     (case statement (select_collaborator_stmt i u) d of
        (Inl e, d') \<Rightarrow> (False, d')
      | (Inr b, d') \<Rightarrow> (b, d'))"

text \<open>\<open>updateCanvas(id, {updatedAt})\<close>, the fallback of the handler.\<close>

definition update_canvas_stmt :: "nat \<Rightarrow> nat \<Rightarrow> db \<Rightarrow> canvas option \<times> db" where
  "update_canvas_stmt canvasId now d =
     (let cs = map (touch canvasId now) (canvases d)
      in (find (\<lambda>c. canvas_id c = canvasId) cs, d\<lparr>canvases := cs\<rparr>))"

definition updateCanvas :: "nat \<Rightarrow> nat \<Rightarrow> db \<Rightarrow> (exn + canvas option) \<times> db" where
  "updateCanvas canvasId now d = statement (update_canvas_stmt canvasId now) d"

subsection \<open>Stamping the identifiers\<close>

text \<open>
  The object a style or content payload is rebuilt from: a string is parsed (an
  unparsable one gives the empty object), an object or array is copied, anything else
  gives the empty object.
\<close>

definition payload_base :: "json_parse \<Rightarrow> json \<Rightarrow> jsobj" where
  "payload_base parse v =
     (case v of
        JStr s \<Rightarrow> (case parse s of None \<Rightarrow> Map.empty | Some p \<Rightarrow> spread (Some p))
      | _ \<Rightarrow> if typeof_object (Some v) then spread (Some v) else Map.empty)"

definition enhanced_style :: "json_parse \<Rightarrow> json option \<Rightarrow> string \<Rightarrow> jsobj" where
  "enhanced_style parse style elementId =
     (case style of
        None \<Rightarrow> [''clientId'' \<mapsto> JStr elementId, ''originalId'' \<mapsto> JStr elementId]
      | Some s \<Rightarrow>
          if truthy (Some s)
          then (payload_base parse s)(''clientId'' \<mapsto> JStr elementId, ''originalId'' \<mapsto> JStr elementId)
          else [''clientId'' \<mapsto> JStr elementId, ''originalId'' \<mapsto> JStr elementId])"

text \<open>
  The \<open>data\<close> of the enhanced element.  With a truthy \<open>data.content\<close> the content is
  rebuilt and stamped.  Otherwise a missing \<open>data\<close> becomes \<^verbatim>\<open>{type: 'text'}\<close> and
  the content is assigned: on an object this sets the key, on a number, string or boolean
  the assignment throws (the module is strict code).  An array takes the key as an
  object does; it is modelled as the object of its indices with the key added, which
  reads the same through \<open>field\<close>.
\<close>

definition enhanced_data :: "json_parse \<Rightarrow> json option \<Rightarrow> string \<Rightarrow> exn + json" where
  "enhanced_data parse dat elementId =
     (let stamps = [''clientId'' \<mapsto> JStr elementId, ''_clientId'' \<mapsto> JStr elementId]
      in if truthy (ofield dat ''content'')
         then (case (dat, ofield dat ''content'') of
                 (Some dv, Some c) \<Rightarrow>
                   Inr (set_field dv ''content''
                     (JObj ((payload_base parse c)
                        (''clientId'' \<mapsto> JStr elementId, ''_clientId'' \<mapsto> JStr elementId))))
               | _ \<Rightarrow> Inl TypeError)
         else (case (if truthy dat then dat else Some (JObj [''type'' \<mapsto> JStr ''text''])) of
                 Some (JObj m) \<Rightarrow> Inr (JObj (m(''content'' \<mapsto> JObj stamps)))
               | Some (JArr xs) \<Rightarrow> Inr (JObj ((index_keys xs)(''content'' \<mapsto> JObj stamps)))
               | _ \<Rightarrow> Inl TypeError))"

definition enhanceElement :: "json_parse \<Rightarrow> json \<Rightarrow> exn + json" where
  "enhanceElement parse element =
     (let e0 = spread (Some element);
          elementId = js_String (e0 ''id'')
      in (case enhanced_data parse (e0 ''data'') elementId of
            Inl e \<Rightarrow> Inl e
          | Inr dat \<Rightarrow>
              Inr (JObj (e0(''style'' \<mapsto> JObj (enhanced_style parse (e0 ''style'') elementId),
                            ''data'' \<mapsto> dat)))))"

fun enhance_elements :: "json_parse \<Rightarrow> json list \<Rightarrow> exn + json list" where
  "enhance_elements parse [] = Inr []"
| "enhance_elements parse (el # els) =
     (case enhanceElement parse el of
        Inl e \<Rightarrow> Inl e
      | Inr el' \<Rightarrow> (case enhance_elements parse els of Inl e \<Rightarrow> Inl e | Inr els' \<Rightarrow> Inr (el' # els')))"

text \<open>\<^verbatim>\<open>if (v) v = String(v)\<close>.\<close>

definition stringify_if_truthy :: "json option \<Rightarrow> json option" where
  "stringify_if_truthy v = (if truthy v then Some (JStr (js_String v)) else v)"

text \<open>The style of a connection before the stamps: a parsed string may be any value.\<close>

definition conn_style_in :: "json_parse \<Rightarrow> json option \<Rightarrow> json option" where
  "conn_style_in parse style =
     (if \<not> truthy style then Some (JObj Map.empty)
      else (case style of
              Some (JStr s) \<Rightarrow> (case parse s of None \<Rightarrow> Some (JObj Map.empty) | Some p \<Rightarrow> Some p)
            | _ \<Rightarrow> style))"

text \<open>\<^verbatim>\<open>v?.k\<close>.\<close>

definition opt_chain :: "json option \<Rightarrow> string \<Rightarrow> json option" where
  "opt_chain v k = (case v of None \<Rightarrow> None | Some x \<Rightarrow> if is_null x then None else field x k)"

definition enhanceConnection :: "json_parse \<Rightarrow> json \<Rightarrow> json" where
  "enhanceConnection parse conn =
     (let c0 = spread (Some conn);
          source = stringify_if_truthy (c0 ''source'');
          target = stringify_if_truthy (c0 ''target'');
          style = conn_style_in parse (c0 ''style'');
          style' = (spread style)
            (''source'' := source, ''target'' := target,
             ''sourceId'' := source, ''targetId'' := target,
             ''sourceClientId'' := source, ''targetClientId'' := target,
             ''type'' \<mapsto> or_else (c0 ''type'') (JStr ''smoothstep''),
             ''stroke'' \<mapsto> or_else (opt_chain style ''stroke'') (JStr ''#6366f1''),
             ''strokeWidth'' \<mapsto> or_else (opt_chain style ''strokeWidth'') (JNum 2))
      in JObj (c0(''source'' := source, ''target'' := target, ''style'' \<mapsto> JObj style')))"

subsection \<open>The handler\<close>

definition respond :: "nat \<Rightarrow> jsobj \<Rightarrow> response" where
  "respond code b = \<lparr>status = code, payload = b\<rparr>"

text \<open>
  The inner \<^verbatim>\<open>try\<close>: a call that reports failure is turned into a thrown error,
  whose handler tries the timestamp alone.
\<close>

definition save_state :: "json_parse \<Rightarrow> nat \<Rightarrow> nat \<Rightarrow> json list \<Rightarrow> json list \<Rightarrow> db \<Rightarrow> response \<times> db" where
  "save_state parse now canvasId enhancedElements enhancedConnections d =
     (case replaceCanvasState parse now canvasId enhancedElements enhancedConnections d of
        (True, d') \<Rightarrow>
          (respond 200
             [''success'' \<mapsto> JBool True,
              ''message'' \<mapsto> JStr (''Saved '' @ show_nat (length enhancedElements) @ '' elements and '' @
                             show_nat (length enhancedConnections) @ '' connections''),
              ''timestamp'' \<mapsto> JNum (int now)], d')
      | (False, d') \<Rightarrow>
          (case updateCanvas canvasId now d' of
             (Inr c, d'') \<Rightarrow>
               (respond 207
                  [''partial'' \<mapsto> JBool True,
                   ''message'' \<mapsto> JStr ''Canvas timestamp updated but elements and connections save failed'',
                   ''error'' \<mapsto> JStr ''Failed to save canvas state'',
                   ''timestamp'' \<mapsto> JNum (int now)], d'')
           | (Inl e, d'') \<Rightarrow>
               (respond 500
                  [''message'' \<mapsto> JStr ''Database error: Failed to save canvas state'',
                   ''timestamp'' \<mapsto> JNum (int now)], d'')))"

definition save_failed :: "nat \<Rightarrow> response" where
  "save_failed now =
     respond 500 [''message'' \<mapsto> JStr ''Failed to save canvas state'', ''timestamp'' \<mapsto> JNum (int now)]"

text \<open>Everything before the save: who asks, for which canvas, with which arrays.\<close>

definition admit :: "request \<Rightarrow> nat \<Rightarrow> db \<Rightarrow> (response + (nat \<times> json list \<times> json list)) \<times> db" where
  "admit req now d =
     (if \<not> authenticated req then (Inl (respond 401 [''message'' \<mapsto> JStr ''Unauthorized'']), d)
      else (case param_id req of
        None \<Rightarrow> (Inl (respond 400 [''message'' \<mapsto> JStr ''Invalid ID'']), d)
      | Some i \<Rightarrow>
         (case getCanvas i d of
            (Inl e, d1) \<Rightarrow> (Inl (save_failed now), d1)
          | (Inr None, d1) \<Rightarrow>
              (Inl (respond 404
                 [''message'' \<mapsto> JStr (''Canvas with ID '' @ show_int i @ '' not found'')]), d1)
          | (Inr (Some c), d1) \<Rightarrow>
              (case isCollaborator i (user_id req) d1 of
                 (isCollab, d2) \<Rightarrow>
                   if canvas_userId c \<noteq> Some (user_id req) \<and> \<not> user_isAdmin req \<and> \<not> isCollab
                   then (Inl (respond 403
                          [''message'' \<mapsto> JStr ''You don't have permission to save this whiteboard'',
                           ''canvasOwner'' \<mapsto> (case canvas_userId c of None \<Rightarrow> JNull | Some w \<Rightarrow> JNum (int w)),
                           ''currentUser'' \<mapsto> JNum (int (user_id req))]), d2)
                   else (case body_elements req of
                      Some (JArr elements) \<Rightarrow>
                        (case body_connections req of
                           Some (JArr conns) \<Rightarrow> (Inr (canvas_id c, elements, conns), d2)
                         | _ \<Rightarrow> (Inl (respond 400 [''message'' \<mapsto> JStr ''Invalid connections array'']), d2))
                    | _ \<Rightarrow> (Inl (respond 400 [''message'' \<mapsto> JStr ''Invalid elements array'']), d2))))))"

definition put_state :: "json_parse \<Rightarrow> nat \<Rightarrow> request \<Rightarrow> db \<Rightarrow> response \<times> db" where
  "put_state parse now req d =
     (case admit req now d of
        (Inl r, d') \<Rightarrow> (r, d')
      | (Inr (canvasId, elements, conns), d') \<Rightarrow>
          (case enhance_elements parse elements of
             Inl e \<Rightarrow> (save_failed now, d')
           | Inr enhancedElements \<Rightarrow>
               save_state parse now canvasId enhancedElements
                 (map (enhanceConnection parse) conns) d'))"

section \<open>The live channels\<close>

text \<open>
  The WebSocket side.  A socket object is known by its identity, a number; the world
  holds the state of every socket object, the server's set of clients, the registry
  \<^verbatim>\<open>canvasConnections\<close> (a map from canvas ids to maps from user ids to sockets, both
  in insertion order, as a JavaScript \<^verbatim>\<open>Map\<close> iterates) and the calls made on sockets
  so far.  Canvas and user ids are numbers, as \<^verbatim>\<open>WebSocketMessage\<close> declares
  them.  Whether a call on a socket throws is the socket's own business: the flags
  \<open>send_throws\<close> and \<open>ping_throws\<close> say so.
\<close>

datatype ready_state = CONNECTING | OPEN | CLOSING | CLOSED

record sock =
  readyState :: ready_state
  isAlive :: bool
  sock_userId :: "int option"
  sock_canvasId :: "int option"
  sock_username :: "string option"
  lastActivity :: "nat option"
  send_throws :: bool
  ping_throws :: bool

record wsmsg =
  m_type :: string
  m_payload :: "json option"
  m_canvasId :: int
  m_userId :: int
  m_username :: "string option"

text \<open>The text \<^verbatim>\<open>JSON.stringify\<close> makes of a message.\<close>

datatype wire = Wire wsmsg

datatype event =
    Stringify wsmsg
  | Send nat wire
  | Close nat nat
  | Terminate nat
  | Ping nat

type_synonym users = "(int \<times> nat) list"

record world =
  socks :: "nat \<Rightarrow> sock"
  clients :: "nat list"
  registry :: "(int \<times> users) list"
  log :: "event list"

definition emit :: "event \<Rightarrow> world \<Rightarrow> world" where
  "emit e w = w\<lparr>log := log w @ [e]\<rparr>"

definition update_sock :: "nat \<Rightarrow> (sock \<Rightarrow> sock) \<Rightarrow> world \<Rightarrow> world" where
  "update_sock s f w = w\<lparr>socks := (socks w)(s := f (socks w s))\<rparr>"

subsection \<open>Calls on a socket\<close>

text \<open>\<^verbatim>\<open>socket.send(text)\<close>: the call is recorded; \<open>False\<close> when it throws.\<close>

definition ws_send :: "nat \<Rightarrow> wire \<Rightarrow> world \<Rightarrow> bool \<times> world" where
  "ws_send s t w = (\<not> send_throws (socks w s), emit (Send s t) w)"

text \<open>\<^verbatim>\<open>try { socket.send(JSON.stringify(m)) } catch { }\<close>.\<close>

definition try_send_json :: "nat \<Rightarrow> wsmsg \<Rightarrow> world \<Rightarrow> world" where
  "try_send_json s m w = snd (ws_send s (Wire m) (emit (Stringify m) w))"

text \<open>
  \<^verbatim>\<open>socket.close(code)\<close> and \<^verbatim>\<open>socket.terminate()\<close> of the library: an open socket
  starts closing; the \<^verbatim>\<open>close\<close> event comes later, as an input of its own.
\<close>

definition ws_close :: "nat \<Rightarrow> nat \<Rightarrow> world \<Rightarrow> world" where
  "ws_close s code w =
     emit (Close s code)
       (update_sock s (\<lambda>k. if readyState k = OPEN then k\<lparr>readyState := CLOSING\<rparr> else k) w)"

definition ws_terminate :: "nat \<Rightarrow> world \<Rightarrow> world" where
  "ws_terminate s w =
     emit (Terminate s)
       (update_sock s (\<lambda>k. if readyState k = CLOSED then k else k\<lparr>readyState := CLOSING\<rparr>) w)"

definition ws_ping :: "nat \<Rightarrow> world \<Rightarrow> bool \<times> world" where
  "ws_ping s w = (\<not> ping_throws (socks w s), emit (Ping s) w)"

subsection \<open>The registry\<close>

definition canvas_users :: "world \<Rightarrow> int \<Rightarrow> users" where
  "canvas_users w c = (case map_of (registry w) c of None \<Rightarrow> [] | Some us \<Rightarrow> us)"

text \<open>\<open>getCanvasConnections\<close> creates the map of a canvas it has not seen.\<close>

definition getCanvasConnections :: "int \<Rightarrow> world \<Rightarrow> world" where
  "getCanvasConnections c w =
     (if map_of (registry w) c = None then w\<lparr>registry := registry w @ [(c, [])]\<rparr> else w)"

definition users_set :: "int \<Rightarrow> int \<Rightarrow> nat \<Rightarrow> world \<Rightarrow> world" where
  "users_set c u s w =
     w\<lparr>registry := AList.update c (AList.update u s (canvas_users w c)) (registry w)\<rparr>"

definition users_delete :: "int \<Rightarrow> int \<Rightarrow> world \<Rightarrow> world" where
  "users_delete c u w =
     w\<lparr>registry := AList.update c (AList.delete u (canvas_users w c)) (registry w)\<rparr>"

definition isSocketConnected :: "world \<Rightarrow> nat \<Rightarrow> bool" where
  "isSocketConnected w s = (readyState (socks w s) = OPEN)"

subsection \<open>Fanout\<close>

text \<open>
  \<open>safeSendMessage\<close>: a text is sent as it is, anything else is serialized first.
\<close>

definition safeSendMessage :: "nat \<Rightarrow> wsmsg + wire \<Rightarrow> world \<Rightarrow> bool \<times> world" where
  "safeSendMessage s message w =
     (if \<not> isSocketConnected w s then (False, w)
      else (case message of
              Inr t \<Rightarrow> ws_send s t w
            | Inl m \<Rightarrow> ws_send s (Wire m) (emit (Stringify m) w)))"

text \<open>
  One turn of \<^verbatim>\<open>connections.forEach\<close>: the world after it and the user ids added to
  \<^verbatim>\<open>toRemove\<close>.  (A registered socket is never \<^verbatim>\<open>undefined\<close>, so the test
  \<^verbatim>\<open>!socket\<close> has no case here.)
\<close>

definition broadcast_entry :: "wire \<Rightarrow> int option \<Rightarrow> int \<times> nat \<Rightarrow> world \<Rightarrow> world \<times> int list" where
  "broadcast_entry t excludeUserId entry w =
     (case entry of (userId, socket) \<Rightarrow>
        if excludeUserId = Some userId then (w, [])
        else if \<not> isSocketConnected w socket
        then (if readyState (socks w socket) = CLOSED \<or> readyState (socks w socket) = CLOSING
              then (w, [userId]) else (w, []))
        else (case safeSendMessage socket (Inr t) w of
                (True, w') \<Rightarrow> (w', [])
              | (False, w') \<Rightarrow> (w', [userId])))"

fun broadcast_loop :: "wire \<Rightarrow> int option \<Rightarrow> users \<Rightarrow> world \<Rightarrow> world \<times> int list" where
  "broadcast_loop t excludeUserId [] w = (w, [])"
| "broadcast_loop t excludeUserId (entry # entries) w =
     (case broadcast_entry t excludeUserId entry w of
        (w1, r1) \<Rightarrow>
          (case broadcast_loop t excludeUserId entries w1 of (w2, r2) \<Rightarrow> (w2, r1 @ r2)))"

definition broadcastToCanvas :: "int \<Rightarrow> wsmsg \<Rightarrow> int option \<Rightarrow> world \<Rightarrow> world" where
  "broadcastToCanvas canvasId message excludeUserId w0 =
     (let w = getCanvasConnections canvasId w0
      in if canvas_users w canvasId = [] then w
         else (case broadcast_loop (Wire message) excludeUserId (canvas_users w canvasId)
                      (emit (Stringify message) w) of
                 (w', toRemove) \<Rightarrow> fold (users_delete canvasId) toRemove w'))"

subsection \<open>The session handler\<close>

text \<open>
  What \<^verbatim>\<open>JSON.parse\<close> made of an inbound text: it threw, it gave \<^verbatim>\<open>null\<close>, or it
  gave a value whose four fields are read (each may be missing).
\<close>

record envelope =
  e_type :: "string option"
  e_payload :: "json option"
  e_canvasId :: "int option"
  e_userId :: "int option"
  e_username :: "string option"

datatype inbound = NotJson | JsonNull | Envelope envelope

definition server_msg :: "string \<Rightarrow> jsobj \<Rightarrow> int \<Rightarrow> int \<Rightarrow> wsmsg" where
  "server_msg t p c u =
     \<lparr>m_type = t, m_payload = Some (JObj p), m_canvasId = c, m_userId = u,
      m_username = Some ''server''\<rparr>"

text \<open>
  A new connection: the server adds the socket to its set of clients, and the handler
  marks it alive and greets it.
\<close>

definition on_connection :: "nat \<Rightarrow> nat \<Rightarrow> world \<Rightarrow> world" where
  "on_connection now s w =
     try_send_json s
       (server_msg ''server-connection-established''
          [''timestamp'' \<mapsto> JNum (int now),
           ''message'' \<mapsto> JStr ''Server connection established. Ready for canvas join.''] 0 0)
       (update_sock s (\<lambda>k. k\<lparr>readyState := OPEN, isAlive := True, sock_userId := None,
            sock_canvasId := None, sock_username := None, lastActivity := None\<rparr>)
          (w\<lparr>clients := (if s \<in> set (clients w) then clients w else clients w @ [s])\<rparr>))"

definition shape_ok :: "envelope \<Rightarrow> bool" where
  "shape_ok e =
     (e_canvasId e \<noteq> None \<and> e_canvasId e \<noteq> Some 0 \<and>
      e_userId e \<noteq> None \<and> e_userId e \<noteq> Some 0 \<and>
      e_type e \<noteq> None \<and> e_type e \<noteq> Some [])"

definition or_zero :: "int option \<Rightarrow> int" where
  "or_zero v = (case v of None \<Rightarrow> 0 | Some i \<Rightarrow> i)"

definition user_ids :: "users \<Rightarrow> json" where
  "user_ids us = JArr (map (\<lambda>p. JNum (fst p)) us)"

text \<open>The registration every well-formed message performs, before its kind is looked at.\<close>

definition register :: "nat \<Rightarrow> int \<Rightarrow> int \<Rightarrow> string option \<Rightarrow> world \<Rightarrow> world" where
  "register s canvasId userId username w0 =
     (let w1 = update_sock s (\<lambda>k. k\<lparr>sock_userId := Some userId, sock_canvasId := Some canvasId,
                  sock_username := username, isAlive := True\<rparr>) w0;
          w2 = getCanvasConnections canvasId w1;
          w3 = (case map_of (canvas_users w2 canvasId) userId of
                  None \<Rightarrow> w2
                | Some existing \<Rightarrow>
                    if existing \<noteq> s
                    then users_delete canvasId userId (ws_close existing 1000 w2)
                    else w2)
      in users_set canvasId userId s w3)"

definition client_msg :: "string \<Rightarrow> json option \<Rightarrow> int \<Rightarrow> int \<Rightarrow> string option \<Rightarrow> wsmsg" where
  "client_msg t p c u n = \<lparr>m_type = t, m_payload = p, m_canvasId = c, m_userId = u, m_username = n\<rparr>"

definition presence_payload :: "int \<Rightarrow> string option \<Rightarrow> json option" where
  "presence_payload u n = Some (JObj ([''userId'' \<mapsto> JNum u](''username'' := map_option JStr n)))"

definition dispatch :: "nat \<Rightarrow> string \<Rightarrow> envelope \<Rightarrow> int \<Rightarrow> int \<Rightarrow> world \<Rightarrow> world" where
  "dispatch s kind e canvasId userId w =
     (if kind = ''join-canvas'' then
        (let w1 = (if map_of (canvas_users w canvasId) userId \<noteq> Some s
                   then users_set canvasId userId s w else w);
             w2 = try_send_json s
                    (server_msg ''active-users''
                       [''users'' \<mapsto> user_ids (filter (\<lambda>p. fst p \<noteq> userId) (canvas_users w1 canvasId))]
                       canvasId 0) w1
         in broadcastToCanvas canvasId
              (client_msg ''user-joined'' (presence_payload userId (e_username e)) canvasId userId
                 (e_username e)) (Some userId) w2)
      else if kind = ''leave-canvas'' then
        (let w1 = broadcastToCanvas canvasId
                    (client_msg ''user-left'' (presence_payload userId (e_username e)) canvasId userId
                       (e_username e)) (Some userId) w
         in if map_of (canvas_users w1 canvasId) userId \<noteq> None
            then users_delete canvasId userId w1 else w1)
      else if kind = ''canvas-update'' then
        broadcastToCanvas canvasId
          (client_msg ''canvas-update'' (e_payload e) canvasId userId (e_username e)) (Some userId) w
      else if kind = ''cursor-position'' then
        broadcastToCanvas canvasId
          (client_msg ''cursor-position'' (e_payload e) canvasId userId (e_username e)) (Some userId) w
      else if kind = ''heartbeat'' then update_sock s (\<lambda>k. k\<lparr>isAlive := True\<rparr>) w
      else w)"

definition error_msg :: "string \<Rightarrow> int \<Rightarrow> int \<Rightarrow> wsmsg" where
  "error_msg text c u = server_msg ''error'' [''error'' \<mapsto> JStr text] c u"

definition on_message :: "nat \<Rightarrow> nat \<Rightarrow> inbound \<Rightarrow> world \<Rightarrow> world" where
  "on_message now s data w =
     (if readyState (socks w s) \<noteq> OPEN then w
      else (case data of
        NotJson \<Rightarrow> try_send_json s (error_msg ''Invalid JSON message format'' 0 0) w
      | JsonNull \<Rightarrow> w
      | Envelope e \<Rightarrow>
          (case (e_canvasId e, e_userId e, e_type e) of
             (Some canvasId, Some userId, Some kind) \<Rightarrow>
               if canvasId = 0 \<or> userId = 0 \<or> kind = []
               then try_send_json s
                      (error_msg ''Message missing required fields (canvasId, userId, or type)''
                         (or_zero (e_canvasId e)) (or_zero (e_userId e))) w
               else
                 (let w1 = register s canvasId userId (e_username e) w;
                      w2 = try_send_json s
                             \<lparr>m_type = ''connection-acknowledged'',
                              m_payload = Some (JObj [''success'' \<mapsto> JBool True,
                                 ''timestamp'' \<mapsto> JNum (int now),
                                 ''connectedUsers'' \<mapsto> user_ids (canvas_users w1 canvasId)]),
                              m_canvasId = canvasId, m_userId = userId,
                              m_username = e_username e\<rparr> w1
                  in dispatch s kind e canvasId userId w2)
           | _ \<Rightarrow> try_send_json s
                    (error_msg ''Message missing required fields (canvasId, userId, or type)''
                       (or_zero (e_canvasId e)) (or_zero (e_userId e))) w)))"

subsection \<open>Closing\<close>

text \<open>
  The fallback scan of the close handler.  Nothing is added to a map while it is
  scanned, so visiting the keys it had at the start, and skipping those deleted in the
  meantime, is what \<^verbatim>\<open>forEach\<close> does.
\<close>

definition left_msg :: "int \<Rightarrow> int \<Rightarrow> string \<Rightarrow> wsmsg" where
  "left_msg c u n =
     \<lparr>m_type = ''user-left'', m_payload = Some (JObj [''userId'' \<mapsto> JNum u]), m_canvasId = c,
      m_userId = u, m_username = Some n\<rparr>"

fun scan_users :: "nat \<Rightarrow> int \<Rightarrow> int list \<Rightarrow> world \<Rightarrow> world" where
  "scan_users s c [] w = w"
| "scan_users s c (u # us) w =
     scan_users s c us
       (if map_of (canvas_users w c) u = Some s
        then broadcastToCanvas c (left_msg c u []) None (users_delete c u w)
        else w)"

fun scan_canvases :: "nat \<Rightarrow> int list \<Rightarrow> world \<Rightarrow> world" where
  "scan_canvases s [] w = w"
| "scan_canvases s (c # cs) w =
     scan_canvases s cs
       (if map_of (registry w) c = None then w
        else scan_users s c (map fst (canvas_users w c)) w)"

definition close_handler :: "nat \<Rightarrow> world \<Rightarrow> world" where
  "close_handler s w =
     (case (sock_userId (socks w s), sock_canvasId (socks w s)) of
        (Some u, Some c) \<Rightarrow>
          if u \<noteq> 0 \<and> c \<noteq> 0 \<and> map_of (canvas_users (getCanvasConnections c w) c) u \<noteq> None
          then broadcastToCanvas c
                 (left_msg c u (case sock_username (socks w s) of None \<Rightarrow> [] | Some n \<Rightarrow> n)) None
                 (users_delete c u (getCanvasConnections c w))
          else scan_canvases s (map fst (registry (if u \<noteq> 0 \<and> c \<noteq> 0 then getCanvasConnections c w else w)))
                 (if u \<noteq> 0 \<and> c \<noteq> 0 then getCanvasConnections c w else w)
      | _ \<Rightarrow> scan_canvases s (map fst (registry w)) w)"

text \<open>The \<^verbatim>\<open>close\<close> event: the socket is closed and leaves the server's clients.\<close>

definition on_close :: "nat \<Rightarrow> world \<Rightarrow> world" where
  "on_close s w =
     close_handler s
       (update_sock s (\<lambda>k. k\<lparr>readyState := CLOSED\<rparr>) (w\<lparr>clients := removeAll s (clients w)\<rparr>))"

subsection \<open>Liveness\<close>

definition ping_interval_ms :: nat where
  "ping_interval_ms = 20000"

text \<open>The \<^verbatim>\<open>pong\<close> handler.\<close>

definition heartbeat :: "nat \<Rightarrow> nat \<Rightarrow> world \<Rightarrow> world" where
  "heartbeat now s w0 =
     (let w = update_sock s (\<lambda>k. k\<lparr>isAlive := True, lastActivity := Some now\<rparr>) w0
      in if readyState (socks w s) = OPEN
         then try_send_json s
                (server_msg ''heartbeat-ack'' [''timestamp'' \<mapsto> JNum (int now)]
                   (or_zero (sock_canvasId (socks w s))) (or_zero (sock_userId (socks w s)))) w
         else w)"

text \<open>One client in one round of the ping timer.\<close>

definition ping_client :: "nat \<Rightarrow> world \<Rightarrow> world" where
  "ping_client s w =
     (if \<not> isAlive (socks w s) then ws_terminate s w
      else (case ws_ping s (update_sock s (\<lambda>k. k\<lparr>isAlive := False\<rparr>) w) of
              (True, w') \<Rightarrow> w'
            | (False, w') \<Rightarrow> ws_terminate s w'))"

definition ping_round :: "world \<Rightarrow> world" where
  "ping_round w = fold ping_client (clients w) w"

subsection \<open>The server as a machine\<close>

datatype input =
    Connect nat
  | Message nat inbound
  | Pong nat
  | Closed nat
  | Tick

fun step :: "nat \<Rightarrow> input \<Rightarrow> world \<Rightarrow> world" where
  "step now (Connect s) w = on_connection now s w"
| "step now (Message s data) w = on_message now s data w"
| "step now (Pong s) w = heartbeat now s w"
| "step now (Closed s) w = on_close s w"
| "step now Tick w = ping_round w"

definition run :: "nat \<Rightarrow> input list \<Rightarrow> world \<Rightarrow> world" where
  "run now inputs w = fold (step now) inputs w"

definition initial_sock :: sock where
  "initial_sock = \<lparr>readyState = CLOSED, isAlive = False, sock_userId = None, sock_canvasId = None,
     sock_username = None, lastActivity = None, send_throws = False, ping_throws = False\<rparr>"

definition initial_world :: world where
  "initial_world = \<lparr>socks = (\<lambda>s. initial_sock), clients = [], registry = [], log = []\<rparr>"

subsection \<open>What a run without faults stores\<close>

text \<open>
  The functions of this subsection are not in the source: they describe, in closed form,
  the rows and the identifier maps that the loops above build, and the theorems relate
  the loops to them.
\<close>

definition has_type :: "json \<Rightarrow> bool" where
  "has_type el = truthy (field el ''type'')"

definition client_id :: "json \<Rightarrow> string" where
  "client_id el = js_String (field el ''id'')"

fun number_elements :: "nat \<Rightarrow> element_row list \<Rightarrow> element_row list" where
  "number_elements n [] = []"
| "number_elements n (r # rs) = r\<lparr>er_id := Suc n\<rparr> # number_elements (Suc n) rs"

fun assign_ids :: "nat \<Rightarrow> json list \<Rightarrow> (string \<Rightarrow> nat option) \<Rightarrow> (string \<Rightarrow> nat option)" where
  "assign_ids n [] m = m"
| "assign_ids n (el # els) m = assign_ids (Suc n) els (m(client_id el \<mapsto> Suc n))"

definition harvest_element :: "json_parse \<Rightarrow> json \<Rightarrow> (string \<Rightarrow> string option) \<Rightarrow> (string \<Rightarrow> string option)" where
  "harvest_element parse el am =
     harvest_style parse (field el ''style'') (client_id el)
       (harvest_content parse (ofield (field el ''data'') ''content'') (client_id el) am)"

fun harvest_all :: "json_parse \<Rightarrow> json list \<Rightarrow> (string \<Rightarrow> string option) \<Rightarrow> (string \<Rightarrow> string option)" where
  "harvest_all parse [] am = am"
| "harvest_all parse (el # els) am = harvest_all parse els (harvest_element parse el am)"

definition maps_after :: "json_parse \<Rightarrow> nat \<Rightarrow> json list \<Rightarrow> id_maps \<Rightarrow> id_maps" where
  "maps_after parse n els st =
     \<lparr>clientIdToDbId = assign_ids n (filter has_type els) (clientIdToDbId st),
      additionalIdMap = harvest_all parse (filter has_type els) (additionalIdMap st)\<rparr>"

definition elements_after :: "nat \<Rightarrow> json list \<Rightarrow> db \<Rightarrow> db" where
  "elements_after canvasId els d =
     d\<lparr>canvas_elements := canvas_elements d @
          number_elements (element_seq d) (map (element_values canvasId) (filter has_type els)),
       element_seq := element_seq d + length (filter has_type els)\<rparr>"

text \<open>The elements of a canvas as stored, without the keys the store assigned.\<close>

definition stored_elements :: "nat \<Rightarrow> db \<Rightarrow> element_row list" where
  "stored_elements canvasId d =
     map (\<lambda>r. r\<lparr>er_id := 0\<rparr>) (filter (\<lambda>r. er_canvas_id r = canvasId) (canvas_elements d))"

text \<open>The row of a valid connection, if the loop inserts one.\<close>

definition connection_row_of :: "nat \<Rightarrow> id_maps \<Rightarrow> json \<Rightarrow> connection_row option" where
  "connection_row_of canvasId st conn =
     (case (clientIdToDbId st (js_String (field conn ''source'')),
            clientIdToDbId st (js_String (field conn ''target''))) of
        (Some sourceDbId, Some targetDbId) \<Rightarrow>
          if sourceDbId = 0 \<or> targetDbId = 0 then None
          else Some (connection_values canvasId conn sourceDbId targetDbId)
      | _ \<Rightarrow> None)"

fun number_connections :: "nat \<Rightarrow> connection_row list \<Rightarrow> connection_row list" where
  "number_connections n [] = []"
| "number_connections n (r # rs) = r\<lparr>cr_id := Suc n\<rparr> # number_connections (Suc n) rs"

definition connections_after :: "nat \<Rightarrow> id_maps \<Rightarrow> json list \<Rightarrow> db \<Rightarrow> db" where
  "connections_after canvasId st cs d =
     d\<lparr>connections := connections d @
          number_connections (connection_seq d) (List.map_filter (connection_row_of canvasId st) cs),
       connection_seq := connection_seq d + length (List.map_filter (connection_row_of canvasId st) cs)\<rparr>"

definition cleared :: "nat \<Rightarrow> db \<Rightarrow> db" where
  "cleared canvasId d =
     d\<lparr>canvas_elements := filter (\<lambda>r. er_canvas_id r \<noteq> canvasId) (canvas_elements d),
       connections := filter (\<lambda>r. cr_canvas_id r \<noteq> canvasId) (connections d)\<rparr>"

definition touched :: "nat \<Rightarrow> nat \<Rightarrow> db \<Rightarrow> db" where
  "touched canvasId now d = d\<lparr>canvases := map (touch canvasId now) (canvases d)\<rparr>"

definition stored_connections :: "nat \<Rightarrow> db \<Rightarrow> connection_row list" where
  "stored_connections canvasId d =
     map (\<lambda>r. r\<lparr>cr_id := 0\<rparr>) (filter (\<lambda>r. cr_canvas_id r = canvasId) (connections d))"

text \<open>A connection on which the preprocessing loop throws.\<close>

definition conn_throws :: "json_parse \<Rightarrow> json \<Rightarrow> bool" where
  "conn_throws parse conn =
     (is_null conn \<or>
      (truthy (field conn ''source'') \<and> truthy (field conn ''target'') \<and>
       (case style_ids parse (field conn ''style'') of Inl e \<Rightarrow> True | Inr p \<Rightarrow> False)))"



text \<open>The row stored for one submitted connection, if any.\<close>

definition edge_row :: "json_parse \<Rightarrow> nat \<Rightarrow> id_maps \<Rightarrow> json \<Rightarrow> connection_row option" where
  "edge_row parse canvasId st conn =
     (case preprocess_conn parse st conn of
        Inl e \<Rightarrow> None
      | Inr conn' \<Rightarrow>
          if valid_connection st conn' then connection_row_of canvasId st conn' else None)"

text \<open>Every connection of the canvas joins two stored elements of the canvas.\<close>

definition element_ids :: "nat \<Rightarrow> db \<Rightarrow> nat set" where
  "element_ids canvasId d = er_id ` {r \<in> set (canvas_elements d). er_canvas_id r = canvasId}"

definition sound_row :: "nat \<Rightarrow> db \<Rightarrow> connection_row \<Rightarrow> bool" where
  "sound_row canvasId d r =
     (case (cr_source_id r, cr_target_id r) of
        (Some s, Some t) \<Rightarrow> s \<in> element_ids canvasId d \<and> t \<in> element_ids canvasId d
      | _ \<Rightarrow> False)"

definition edges_sound :: "nat \<Rightarrow> db \<Rightarrow> bool" where
  "edges_sound canvasId d =
     (\<forall>r \<in> set (connections d). cr_canvas_id r = canvasId \<longrightarrow> sound_row canvasId d r)"

definition ids_known :: "nat \<Rightarrow> id_maps \<Rightarrow> db \<Rightarrow> bool" where
  "ids_known canvasId st d =
     (\<forall>k v. clientIdToDbId st k = Some v \<longrightarrow> v \<in> element_ids canvasId d)"

text \<open>Every connection row was in the store before the call, or joins two stored elements.\<close>

definition old_or_sound :: "nat \<Rightarrow> connection_row set \<Rightarrow> db \<Rightarrow> bool" where
  "old_or_sound canvasId S d = (\<forall>r \<in> set (connections d). r \<in> S \<or> sound_row canvasId d r)"

subsection \<open>Observations on the live channels\<close>

text \<open>
  Not in the source: the well-formedness of the registry (what a \<^verbatim>\<open>Map\<close> of
  \<^verbatim>\<open>Map\<close>s guarantees by construction: one entry per key), and the readings of
  the call log that the theorems use.
\<close>

definition registry_wf :: "world \<Rightarrow> bool" where
  "registry_wf w =
     (distinct (map fst (registry w)) \<and>
      (\<forall>p \<in> set (registry w). distinct (map fst (snd p))))"

definition registrations :: "world \<Rightarrow> int \<Rightarrow> int \<Rightarrow> nat list" where
  "registrations w c u = map snd (filter (\<lambda>p. fst p = u) (canvas_users w c))"

fun sent_to :: "nat \<Rightarrow> event list \<Rightarrow> wire list" where
  "sent_to s [] = []"
| "sent_to s (Send s' t # es) = (if s' = s then t # sent_to s es else sent_to s es)"
| "sent_to s (e # es) = sent_to s es"

fun stringified :: "event list \<Rightarrow> wsmsg list" where
  "stringified [] = []"
| "stringified (Stringify m # es) = m # stringified es"
| "stringified (e # es) = stringified es"

text \<open>The entries a broadcast delivers to, and those it unregisters afterwards.\<close>

definition recipients :: "world \<Rightarrow> int option \<Rightarrow> users \<Rightarrow> users" where
  "recipients w excludeUserId us =
     filter (\<lambda>p. excludeUserId \<noteq> Some (fst p) \<and> readyState (socks w (snd p)) = OPEN) us"

definition failing :: "world \<Rightarrow> int option \<Rightarrow> int \<times> nat \<Rightarrow> bool" where
  "failing w excludeUserId p =
     (excludeUserId \<noteq> Some (fst p) \<and>
      (readyState (socks w (snd p)) = CLOSED \<or> readyState (socks w (snd p)) = CLOSING \<or>
       (readyState (socks w (snd p)) = OPEN \<and> send_throws (socks w (snd p)))))"

definition broadcast_events :: "world \<Rightarrow> wsmsg \<Rightarrow> int option \<Rightarrow> users \<Rightarrow> event list" where
  "broadcast_events w m excludeUserId us =
     (if us = [] then []
      else Stringify m # map (\<lambda>p. Send (snd p) (Wire m)) (recipients w excludeUserId us))"

text \<open>An inbound text the handler answers with an error envelope.\<close>

definition malformed :: "inbound \<Rightarrow> bool" where
  "malformed data = (case data of NotJson \<Rightarrow> True | JsonNull \<Rightarrow> False | Envelope e \<Rightarrow> \<not> shape_ok e)"

definition error_reply :: "inbound \<Rightarrow> wsmsg" where
  "error_reply data =
     (case data of
        Envelope e \<Rightarrow>
          error_msg ''Message missing required fields (canvasId, userId, or type)''
            (or_zero (e_canvasId e)) (or_zero (e_userId e))
      | _ \<Rightarrow> error_msg ''Invalid JSON message format'' 0 0)"

text \<open>The messages of a join, as the handler builds them.\<close>

definition ack_msg :: "nat \<Rightarrow> int \<Rightarrow> int \<Rightarrow> string option \<Rightarrow> users \<Rightarrow> wsmsg" where
  "ack_msg now c u n us =
     \<lparr>m_type = ''connection-acknowledged'',
      m_payload = Some (JObj [''success'' \<mapsto> JBool True, ''timestamp'' \<mapsto> JNum (int now),
                              ''connectedUsers'' \<mapsto> user_ids us]),
      m_canvasId = c, m_userId = u, m_username = n\<rparr>"



text \<open>The \<open>close\<close> call a registration makes on the socket it replaces.\<close>

definition eviction :: "world \<Rightarrow> nat \<Rightarrow> int \<Rightarrow> int \<Rightarrow> event list" where
  "eviction w s c u =
     (case map_of (canvas_users w c) u of
        None \<Rightarrow> []
      | Some existing \<Rightarrow> if existing \<noteq> s then [Close existing 1000] else [])"

definition log_extends :: "world \<Rightarrow> world \<Rightarrow> bool" where
  "log_extends w w' = (\<exists>evs. log w' = log w @ evs)"

subsection \<open>Sample payloads\<close>

definition no_parse :: json_parse where
  "no_parse s = None"

definition el_a :: json where
  "el_a = JObj [''id'' \<mapsto> JStr ''a'', ''type'' \<mapsto> JStr ''textElement'']"

definition el_b :: json where
  "el_b = JObj [''id'' \<mapsto> JStr ''b'', ''type'' \<mapsto> JStr ''textElement'',
                ''data'' \<mapsto> JObj [''content'' \<mapsto> JObj [''text'' \<mapsto> JStr ''hello'']]]"

definition el_untyped :: json where
  "el_untyped = JObj [''id'' \<mapsto> JStr ''u'',
                ''data'' \<mapsto> JObj [''content'' \<mapsto> JObj [''text'' \<mapsto> JStr ''lost'']]]"

definition edge_a_b :: json where
  "edge_a_b = JObj [''source'' \<mapsto> JStr ''a'', ''target'' \<mapsto> JStr ''b'']"



definition req_owner :: request where
  "req_owner = \<lparr>authenticated = True, user_id = 7, user_isAdmin = False, param_id = Some 1,
     body_elements = Some (JArr [el_a, el_b]), body_connections = Some (JArr [edge_a_b])\<rparr>"

text \<open>The store when the first \<^verbatim>\<open>DELETE\<close> fails, and when the fallback fails as well.\<close>

definition db_flaky :: db where
  "db_flaky = demo_db\<lparr>faults := [False, False, True]\<rparr>"

definition db_down :: db where
  "db_down = demo_db\<lparr>faults := [False, False, True, True]\<rparr>"

subsection \<open>Sample sessions\<close>

definition envelope_of :: "string \<Rightarrow> int \<Rightarrow> int \<Rightarrow> string option \<Rightarrow> inbound" where
  "envelope_of kind c u n =
     Envelope \<lparr>e_type = Some kind, e_payload = None, e_canvasId = Some c, e_userId = Some u,
               e_username = n\<rparr>"

definition note_msg :: wsmsg where
  "note_msg = client_msg ''canvas-update'' None 5 9 (Some ''zoe'')"

text \<open>Two sockets, users 7 and 8 on canvas 5.\<close>

definition w_two :: world where
  "w_two = run 0 [Connect 1, Message 1 (envelope_of ''join-canvas'' 5 7 (Some ''ann'')),
                  Connect 2, Message 2 (envelope_of ''join-canvas'' 5 8 (Some ''bob''))] initial_world"

text \<open>One socket that spoke as user 7 and then as user 8 on canvas 5.\<close>

definition w_dup :: world where
  "w_dup = run 0 [Connect 1, Message 1 (envelope_of ''join-canvas'' 5 7 (Some ''ann'')),
                  Message 1 (envelope_of ''canvas-update'' 5 8 (Some ''ann''))] initial_world"

text \<open>One socket, connected and silent so far.\<close>

definition w_one :: world where
  "w_one = run 0 [Connect 1] initial_world"

text \<open>Users 7 and 8 on canvas 5, and a third socket that has not spoken yet.\<close>

definition w_lobby :: world where
  "w_lobby = run 0 [Connect 3] w_two"


definition new_events :: "world \<Rightarrow> world \<Rightarrow> event list" where
  "new_events w w' = drop (length (log w)) (log w')"

section \<open>Properties of the state replacer\<close>

subsection \<open>Runs in which no statement fails\<close>

lemma tick_no_faults: "faults d = [] \<Longrightarrow> tick d = d"
  by (simp add: tick_def)

lemma statement_no_faults:
  "faults d = [] \<Longrightarrow> statement f d = (Inr (fst (f d)), snd (f d))"
  by (simp add: statement_def next_fails_def tick_no_faults split: prod.split)

lemma and_then_Inr: "and_then (Inr a, d) f = f a d"
  by (simp add: and_then_def)

lemma and_then_Inl: "and_then (Inl e, d) f = (Inl e, d)"
  by (simp add: and_then_def)

lemma process_element_untyped:
  "\<not> is_null el \<Longrightarrow> \<not> has_type el \<Longrightarrow> process_element parse cid el st d = (Inr st, d)"
  by (simp add: process_element_def has_type_def)

lemma process_element_typed:
  "has_type el \<Longrightarrow> faults d = [] \<Longrightarrow>
   process_element parse cid el st d =
     (Inr \<lparr>clientIdToDbId = (clientIdToDbId st)(client_id el \<mapsto> Suc (element_seq d)),
           additionalIdMap = harvest_element parse el (additionalIdMap st)\<rparr>,
      d\<lparr>canvas_elements := canvas_elements d @ [(element_values cid el)\<lparr>er_id := Suc (element_seq d)\<rparr>],
        element_seq := Suc (element_seq d)\<rparr>)"
  apply (subgoal_tac "\<not> is_null el")
   apply (simp add: process_element_def has_type_def statement_no_faults and_then_Inr
      insert_element_stmt_def Let_def client_id_def harvest_element_def)
  apply (cases el; simp add: has_type_def)
  done

lemma maps_after_untyped: "\<not> has_type el \<Longrightarrow> maps_after parse n (el # els) st = maps_after parse n els st"
  by (simp add: maps_after_def)

lemma elements_after_untyped: "\<not> has_type el \<Longrightarrow> elements_after cid (el # els) d = elements_after cid els d"
  by (simp add: elements_after_def)

lemma maps_after_typed:
  "has_type el \<Longrightarrow>
   maps_after parse (Suc n) els
     \<lparr>clientIdToDbId = (clientIdToDbId st)(client_id el \<mapsto> Suc n),
      additionalIdMap = harvest_element parse el (additionalIdMap st)\<rparr> =
   maps_after parse n (el # els) st"
  by (simp add: maps_after_def)

lemma elements_after_typed:
  "has_type el \<Longrightarrow>
   elements_after cid els
     (d\<lparr>canvas_elements := canvas_elements d @ [(element_values cid el)\<lparr>er_id := Suc (element_seq d)\<rparr>],
        element_seq := Suc (element_seq d)\<rparr>) =
   elements_after cid (el # els) d"
  by (simp add: elements_after_def)

lemma insert_elements_no_faults:
  "faults d = [] \<Longrightarrow> \<forall>el \<in> set els. \<not> is_null el \<Longrightarrow>
   insert_elements parse cid els st d =
     (Inr (maps_after parse (element_seq d) els st), elements_after cid els d)"
proof (induction els arbitrary: st d)
  case Nil
  show ?case by (simp add: maps_after_def elements_after_def)
next
  case (Cons el els)
  from Cons.prems have nn: "\<not> is_null el" and rest: "\<forall>el \<in> set els. \<not> is_null el"
    by simp_all
  show ?case
  proof (cases "has_type el")
    case False
    with nn have "process_element parse cid el st d = (Inr st, d)"
      by (rule process_element_untyped)
    then show ?thesis
      using Cons.IH [OF Cons.prems(1) rest, of st] False
      by (simp add: and_then_Inr maps_after_untyped elements_after_untyped)
  next
    case True
    define st' where "st' = \<lparr>clientIdToDbId = (clientIdToDbId st)(client_id el \<mapsto> Suc (element_seq d)),
           additionalIdMap = harvest_element parse el (additionalIdMap st)\<rparr>"
    define d' where "d' = d\<lparr>canvas_elements := canvas_elements d @ [(element_values cid el)\<lparr>er_id := Suc (element_seq d)\<rparr>],
        element_seq := Suc (element_seq d)\<rparr>"
    have p: "process_element parse cid el st d = (Inr st', d')"
      unfolding st'_def d'_def by (rule process_element_typed [OF True Cons.prems(1)])
    have f: "faults d' = []" and s: "element_seq d' = Suc (element_seq d)"
      using Cons.prems(1) by (simp_all add: d'_def)
    have "insert_elements parse cid els st' d' =
       (Inr (maps_after parse (Suc (element_seq d)) els st'), elements_after cid els d')"
      using Cons.IH [OF f rest, of st'] s by simp
    also have "maps_after parse (Suc (element_seq d)) els st' = maps_after parse (element_seq d) (el # els) st"
      unfolding st'_def by (rule maps_after_typed [OF True])
    also have "elements_after cid els d' = elements_after cid (el # els) d"
      unfolding d'_def by (rule elements_after_typed [OF True])
    finally show ?thesis using p by (simp add: and_then_Inr)
  qed
qed

lemma faults_elements_after: "faults (elements_after cid els d) = faults d"
  by (simp add: elements_after_def)

lemma insert_connection_no_faults:
  "faults d = [] \<Longrightarrow>
   insert_connection cid st c d =
     (Inr (), case connection_row_of cid st c of
                None \<Rightarrow> d
              | Some r \<Rightarrow> d\<lparr>connections := connections d @ [r\<lparr>cr_id := Suc (connection_seq d)\<rparr>],
                            connection_seq := Suc (connection_seq d)\<rparr>)"
  by (simp add: insert_connection_def connection_row_of_def statement_no_faults and_then_Inr
      insert_connection_stmt_def Let_def split: option.split)

lemma connections_after_Nil: "connections_after cid st [] d = d"
  by (simp add: connections_after_def List.map_filter_simps)

lemma connections_after_None:
  "connection_row_of cid st c = None \<Longrightarrow> connections_after cid st (c # cs) d = connections_after cid st cs d"
  by (simp add: connections_after_def List.map_filter_simps)

lemma connections_after_Some:
  "connection_row_of cid st c = Some r \<Longrightarrow>
   connections_after cid st cs
     (d\<lparr>connections := connections d @ [r\<lparr>cr_id := Suc (connection_seq d)\<rparr>],
        connection_seq := Suc (connection_seq d)\<rparr>) =
   connections_after cid st (c # cs) d"
  by (simp add: connections_after_def List.map_filter_simps)

lemma insert_connections_no_faults:
  "faults d = [] \<Longrightarrow> insert_connections cid st cs d = (Inr (), connections_after cid st cs d)"
proof (induction cs arbitrary: d)
  case Nil
  show ?case by (simp add: connections_after_Nil)
next
  case (Cons c cs)
  show ?case
  proof (cases "connection_row_of cid st c")
    case None
    then show ?thesis
      using Cons.IH [OF Cons.prems] Cons.prems
      by (simp add: insert_connection_no_faults and_then_Inr connections_after_None)
  next
    case (Some r)
    define d' where "d' = d\<lparr>connections := connections d @ [r\<lparr>cr_id := Suc (connection_seq d)\<rparr>],
                            connection_seq := Suc (connection_seq d)\<rparr>"
    have f: "faults d' = []" using Cons.prems by (simp add: d'_def)
    have "insert_connection cid st c d = (Inr (), d')"
      using Some Cons.prems by (simp add: insert_connection_no_faults d'_def)
    moreover have "insert_connections cid st cs d' = (Inr (), connections_after cid st cs d')"
      by (rule Cons.IH [OF f])
    moreover have "connections_after cid st cs d' = connections_after cid st (c # cs) d"
      unfolding d'_def by (rule connections_after_Some [OF Some])
    ultimately show ?thesis by (simp add: and_then_Inr)
  qed
qed

lemma clear_no_faults:
  "faults d = [] \<Longrightarrow>
   and_then (statement (delete_elements_stmt cid) d)
     (\<lambda>u d1. and_then (statement (delete_connections_stmt cid) d1) (\<lambda>u. k)) = k (cleared cid d)"
  by (simp add: statement_no_faults delete_elements_stmt_def delete_connections_stmt_def
      and_then_Inr cleared_def)

lemma faults_cleared: "faults (cleared cid d) = faults d"
  by (simp add: cleared_def)

lemma faults_connections_after: "faults (connections_after cid st cs d) = faults d"
  by (simp add: connections_after_def)

lemma element_seq_cleared: "element_seq (cleared cid d) = element_seq d"
  by (simp add: cleared_def)

lemma replace_body_no_faults:
  assumes "faults d = []" "\<forall>el \<in> set els. \<not> is_null el"
  shows "replace_body parse now cid els conns d =
    (case preprocess_conns parse (maps_after parse (element_seq d) els empty_maps) conns of
       Inl e \<Rightarrow> (Inl e, elements_after cid els (cleared cid d))
     | Inr cs \<Rightarrow>
         (Inr (), touched cid now
            (connections_after cid (maps_after parse (element_seq d) els empty_maps)
               (filter (valid_connection (maps_after parse (element_seq d) els empty_maps)) cs)
               (elements_after cid els (cleared cid d)))))"
proof -
  have c: "faults (cleared cid d) = []" using assms(1) by (simp add: faults_cleared)
  have e: "faults (elements_after cid els (cleared cid d)) = []"
    using c by (simp add: faults_elements_after)
  have t: "\<And>st cs. statement (touch_canvas_stmt cid now)
        (connections_after cid st cs (elements_after cid els (cleared cid d))) =
      (Inr (), touched cid now (connections_after cid st cs (elements_after cid els (cleared cid d))))"
    using e by (simp add: statement_no_faults faults_connections_after touch_canvas_stmt_def touched_def)
  show ?thesis
    unfolding replace_body_def
    apply (subst clear_no_faults [OF assms(1)])
    apply (subst insert_elements_no_faults [OF c assms(2)])
    apply (simp only: and_then_Inr element_seq_cleared)
    apply (cases "preprocess_conns parse (maps_after parse (element_seq d) els empty_maps) conns")
     apply (simp only: sum.case)
    apply (simp only: sum.case insert_connections_no_faults [OF e] and_then_Inr t)
    done
qed

subsection \<open>Malformed elements\<close>

lemma er_id_zero: "er_id r = 0 \<Longrightarrow> r\<lparr>er_id := 0\<rparr> = r"
  by (cases r) simp

lemma strip_number_elements:
  "\<forall>r \<in> set rows. er_id r = 0 \<Longrightarrow> map (\<lambda>r. r\<lparr>er_id := 0\<rparr>) (number_elements n rows) = rows"
  by (induction rows arbitrary: n) (simp_all add: er_id_zero)

lemma canvas_number_elements:
  "map er_canvas_id (number_elements n rows) = map er_canvas_id rows"
  by (induction rows arbitrary: n) simp_all

lemma filter_canvas_number_elements:
  "\<forall>r \<in> set rows. er_canvas_id r = cid \<Longrightarrow>
   filter (\<lambda>r. er_canvas_id r = cid) (number_elements n rows) = number_elements n rows"
  by (induction rows arbitrary: n) simp_all

lemma element_values_keys [simp]:
  "er_id (element_values cid el) = 0" "er_canvas_id (element_values cid el) = cid"
  by (simp_all add: element_values_def Let_def)

lemma stored_elements_after:
  "stored_elements cid (elements_after cid els (cleared cid d)) =
   map (element_values cid) (filter has_type els)"
proof -
  have "filter (\<lambda>r. er_canvas_id r = cid) (filter (\<lambda>r. er_canvas_id r \<noteq> cid) (canvas_elements d)) = []"
    by (simp add: filter_empty_conv)
  then show ?thesis
    by (simp add: stored_elements_def elements_after_def cleared_def
        filter_canvas_number_elements strip_number_elements)
qed

lemma stored_elements_cong:
  "canvas_elements d' = canvas_elements d \<Longrightarrow> stored_elements cid d' = stored_elements cid d"
  by (simp add: stored_elements_def)

lemma canvas_elements_touched: "canvas_elements (touched cid now d) = canvas_elements d"
  by (simp add: touched_def)

lemma canvas_elements_connections_after:
  "canvas_elements (connections_after cid st cs d) = canvas_elements d"
  by (simp add: connections_after_def)

lemma stored_elements_replace:
  assumes "faults d = []" "\<forall>el \<in> set els. \<not> is_null el"
  shows "stored_elements cid (snd (replaceCanvasState parse now cid els conns d)) =
           map (element_values cid) (filter has_type els)"
proof (cases "preprocess_conns parse (maps_after parse (element_seq d) els empty_maps) conns")
  case (Inl e)
  then show ?thesis
    by (simp add: replaceCanvasState_def replace_body_no_faults [OF assms] stored_elements_after)
next
  case (Inr cs)
  then show ?thesis
    by (simp add: replaceCanvasState_def replace_body_no_faults [OF assms]
        stored_elements_cong [OF canvas_elements_touched]
        stored_elements_cong [OF canvas_elements_connections_after] stored_elements_after)
qed

lemma insert_elements_filter:
  "\<forall>el \<in> set els. \<not> is_null el \<Longrightarrow>
   insert_elements parse cid els st d = insert_elements parse cid (filter has_type els) st d"
proof (induction els arbitrary: st d)
  case Nil
  show ?case by simp
next
  case (Cons el els)
  then have nn: "\<not> is_null el" and ih: "\<And>st d. insert_elements parse cid els st d =
      insert_elements parse cid (filter has_type els) st d"
    by simp_all
  show ?case
  proof (cases "has_type el")
    case True
    have "insert_elements parse cid els = insert_elements parse cid (filter has_type els)"
      by (intro ext) (rule ih)
    with True show ?thesis by simp
  next
    case False
    then show ?thesis
      by (simp add: process_element_untyped [OF nn False] and_then_Inr ih)
  qed
qed

lemma replaceCanvasState_filter:
  assumes "\<forall>el \<in> set els. \<not> is_null el"
  shows "replaceCanvasState parse now cid els conns d =
   replaceCanvasState parse now cid (filter has_type els) conns d"
  unfolding replaceCanvasState_def replace_body_def
  by (simp only: insert_elements_filter [OF assms])

text \<open>
  Claim C9, as the code has it.  An element with no (truthy) node kind is skipped: the
  call behaves as if the element had not been in the batch, whatever the other elements
  and the connections are, so it never aborts the batch.  When no statement fails, the
  rows stored for the canvas are those of the elements that have a node kind, in order.
  A content payload is not required: \<open>element_values\<close> stores an element without
  one with the two identifier stamps as its content.  (Elements are objects:
  reading the kind of a \<^verbatim>\<open>null\<close> element throws.)
\<close>

theorem replaceCanvasState_skips_untyped:
  assumes "\<forall>el \<in> set els. \<not> is_null el"
  shows "replaceCanvasState parse now cid els conns d =
           replaceCanvasState parse now cid (filter has_type els) conns d \<and>
         (faults d = [] \<longrightarrow>
            stored_elements cid (snd (replaceCanvasState parse now cid els conns d)) =
              map (element_values cid) (filter has_type els))"
  using assms by (simp add: replaceCanvasState_filter [OF assms] stored_elements_replace)

theorem replaceCanvasState_skips_untyped_witness:
  "\<not> is_null el_untyped \<and> \<not> is_null el_b \<and> faults demo_db = [] \<and>
   \<not> has_type el_untyped \<and> has_type el_b \<and>
   replaceCanvasState no_parse 5 1 [el_untyped, el_b] [] demo_db =
     replaceCanvasState no_parse 5 1 [el_b] [] demo_db \<and>
   stored_elements 1 (snd (replaceCanvasState no_parse 5 1 [el_untyped, el_b] [] demo_db)) =
     [element_values 1 el_b]"
proof -
  have n: "\<forall>el \<in> set [el_untyped, el_b]. \<not> is_null el"
    by (simp add: el_untyped_def el_b_def)
  have t: "\<not> has_type el_untyped" "has_type el_b"
    by (simp_all add: has_type_def el_untyped_def el_b_def)
  have f: "faults demo_db = []"
    by (simp add: demo_db_def)
  note r = replaceCanvasState_skips_untyped [OF n, of no_parse 5 1 "[]" demo_db]
  have 1: "replaceCanvasState no_parse 5 1 [el_untyped, el_b] [] demo_db =
     replaceCanvasState no_parse 5 1 [el_b] [] demo_db"
    using r [THEN conjunct1] t by simp
  have 2: "stored_elements 1 (snd (replaceCanvasState no_parse 5 1 [el_untyped, el_b] [] demo_db)) =
     [element_values 1 el_b]"
    using r [THEN conjunct2, rule_format, OF f] t by simp
  have 3: "\<not> is_null el_untyped" "\<not> is_null el_b"
    using n by simp_all
  from 1 2 3 t f show ?thesis by blast
qed

text \<open>An element that has a node kind and no content payload is stored all the same.\<close>

theorem element_without_content_is_stored:
  "has_type el_a \<and> ofield (field el_a ''data'') ''content'' = None \<and>
   map (\<lambda>r. (er_type r, field (er_content r) ''clientId'', field (er_content r) ''_clientId''))
     (stored_elements 1 (snd (replaceCanvasState no_parse 5 1 [el_a] [] demo_db))) =
   [(JStr ''textElement'', Some (JStr ''a''), Some (JStr ''a''))]"
proof -
  have n: "\<forall>el \<in> set [el_a]. \<not> is_null el"
    by (simp add: el_a_def)
  have t: "has_type el_a"
    by (simp add: has_type_def el_a_def)
  have f: "faults demo_db = []"
    by (simp add: demo_db_def)
  have "ofield (field el_a ''data'') ''content'' = None"
    by (simp add: el_a_def)
  moreover have "er_type (element_values 1 el_a) = JStr ''textElement''"
    by (simp add: element_values_def el_a_def or_else_def Let_def)
  moreover have "field (er_content (element_values 1 el_a)) ''clientId'' = Some (JStr ''a'')"
    "field (er_content (element_values 1 el_a)) ''_clientId'' = Some (JStr ''a'')"
    by (simp_all add: element_values_def el_a_def or_else_def Let_def)
  moreover have "stored_elements 1 (snd (replaceCanvasState no_parse 5 1 [el_a] [] demo_db)) =
      [element_values 1 el_a]"
    using stored_elements_replace [OF f n, of 1 no_parse 5 "[]"] t by simp
  ultimately show ?thesis
    using t by simp
qed

subsection \<open>Connections whose endpoints do not resolve\<close>

lemma preprocess_conn_total:
  "\<not> conn_throws parse c \<Longrightarrow> \<exists>c'. preprocess_conn parse st c = Inr c'"
  by (auto simp: conn_throws_def preprocess_conn_def Let_def split: sum.splits prod.splits)

lemma preprocess_conns_rows:
  "\<forall>c \<in> set conns. \<not> conn_throws parse c \<Longrightarrow>
   \<exists>cs. preprocess_conns parse st conns = Inr cs \<and>
        List.map_filter (connection_row_of cid st) (filter (valid_connection st) cs) =
        List.map_filter (edge_row parse cid st) conns"
proof (induction conns)
  case Nil
  show ?case by (simp add: List.map_filter_simps)
next
  case (Cons c conns)
  then obtain cs where cs: "preprocess_conns parse st conns = Inr cs"
      "List.map_filter (connection_row_of cid st) (filter (valid_connection st) cs) =
        List.map_filter (edge_row parse cid st) conns"
    by auto
  from Cons.prems preprocess_conn_total [of parse c st]
  obtain c' where c': "preprocess_conn parse st c = Inr c'"
    by auto
  have e: "edge_row parse cid st c =
      (if valid_connection st c' then connection_row_of cid st c' else None)"
    using c' by (simp add: edge_row_def)
  show ?case
    using cs c' e by (simp add: List.map_filter_simps split: option.split)
qed








lemma statement_snd_cases:
  "snd (statement f d) = tick d \<or> snd (statement f d) = snd (f (tick d))"
  by (auto simp: statement_def split: if_splits prod.splits)

lemma element_ids_tick [simp]: "element_ids cid (tick d) = element_ids cid d"
  by (simp add: element_ids_def tick_def)

lemma connections_tick [simp]: "connections (tick d) = connections d"
  by (simp add: tick_def)

lemma canvas_elements_tick [simp]: "canvas_elements (tick d) = canvas_elements d"
  by (simp add: tick_def)

lemma element_ids_cong:
  "canvas_elements d' = canvas_elements d \<Longrightarrow> element_ids cid d' = element_ids cid d"
  by (simp add: element_ids_def)

lemma ids_known_mono:
  "ids_known cid st d \<Longrightarrow> element_ids cid d \<subseteq> element_ids cid d' \<Longrightarrow> ids_known cid st d'"
  by (auto simp: ids_known_def)

lemma insert_element_ids:
  "er_canvas_id r = cid \<Longrightarrow>
   element_ids cid (snd (insert_element_stmt r d)) = insert (Suc (element_seq d)) (element_ids cid d)"
proof -
  assume c: "er_canvas_id r = cid"
  define r' where "r' = r\<lparr>er_id := Suc (element_seq d)\<rparr>"
  have r': "er_canvas_id r' = cid" "er_id r' = Suc (element_seq d)"
    using c by (simp_all add: r'_def)
  have "{x \<in> set (canvas_elements d @ [r']). er_canvas_id x = cid} =
      insert r' {x \<in> set (canvas_elements d). er_canvas_id x = cid}"
    using r'(1) by auto
  then have "er_id ` {x \<in> set (canvas_elements d @ [r']). er_canvas_id x = cid} =
      insert (Suc (element_seq d)) (er_id ` {x \<in> set (canvas_elements d). er_canvas_id x = cid})"
    using r'(2) by simp
  then show ?thesis
    by (simp add: insert_element_stmt_def element_ids_def Let_def r'_def)
qed



lemma element_seq_tick [simp]: "element_seq (tick d) = element_seq d"
  by (simp add: tick_def)


lemma process_element_ids_mono:
  "element_ids cid d \<subseteq> element_ids cid (snd (process_element parse cid el st d))"
  using statement_snd_cases [of "insert_element_stmt (element_values cid el)" d]
  by (auto simp: process_element_def Let_def and_then_def insert_element_ids
      split: prod.splits sum.splits)




lemma sound_row_cong:
  "element_ids cid d' = element_ids cid d \<Longrightarrow> cr_source_id r' = cr_source_id r \<Longrightarrow>
   cr_target_id r' = cr_target_id r \<Longrightarrow> sound_row cid d' r' = sound_row cid d r"
  by (simp add: sound_row_def split: option.split)

lemma edges_sound_cong:
  assumes e: "canvas_elements d' = canvas_elements d" and c: "connections d' = connections d"
  shows "edges_sound cid d' = edges_sound cid d"
proof -
  have "element_ids cid d' = element_ids cid d"
    by (rule element_ids_cong [OF e])
  then have "sound_row cid d' r = sound_row cid d r" for r
    by (rule sound_row_cong) simp_all
  then show ?thesis
    by (simp add: edges_sound_def c)
qed

lemma edges_sound_tick [simp]: "edges_sound cid (tick d) = edges_sound cid d"
  by (rule edges_sound_cong) simp_all

lemma ids_known_tick [simp]: "ids_known cid st (tick d) = ids_known cid st d"
  by (simp add: ids_known_def)

lemma insert_connection_stmt_elements:
  "canvas_elements (snd (insert_connection_stmt r d)) = canvas_elements d"
  by (simp add: insert_connection_stmt_def Let_def)


lemma connection_values_ends [simp]:
  "cr_source_id (connection_values cid conn s t) = Some s"
  "cr_target_id (connection_values cid conn s t) = Some t"
  "cr_canvas_id (connection_values cid conn s t) = cid"
  "cr_id (connection_values cid conn s t) = 0"
  by (simp_all add: connection_values_def)

lemma insert_connection_elements:
  "canvas_elements (snd (insert_connection cid st c d)) = canvas_elements d"
  using statement_snd_cases [of "insert_connection_stmt (connection_values cid c
      (the (clientIdToDbId st (js_String (field c ''source''))))
      (the (clientIdToDbId st (js_String (field c ''target'')))))" d]
  by (auto simp: insert_connection_def and_then_def insert_connection_stmt_elements
      split: option.splits prod.splits sum.splits)


lemma insert_connections_elements:
  "canvas_elements (snd (insert_connections cid st cs d)) = canvas_elements d"
proof (induction cs arbitrary: d)
  case Nil
  show ?case by simp
next
  case (Cons c cs)
  show ?case
  proof (cases "insert_connection cid st c d")
    case (Pair r d')
    with insert_connection_elements [of cid st c d]
    have "canvas_elements d' = canvas_elements d" by simp
    with Pair Cons.IH [of d'] show ?thesis
      by (cases r) (simp_all add: and_then_def)
  qed
qed





lemma cr_id_zero: "cr_id r = 0 \<Longrightarrow> r\<lparr>cr_id := 0\<rparr> = r"
  by (cases r) simp

lemma strip_number_connections:
  "\<forall>r \<in> set rows. cr_id r = 0 \<Longrightarrow> map (\<lambda>r. r\<lparr>cr_id := 0\<rparr>) (number_connections n rows) = rows"
  by (induction rows arbitrary: n) (simp_all add: cr_id_zero)

lemma filter_canvas_number_connections:
  "\<forall>r \<in> set rows. cr_canvas_id r = cid \<Longrightarrow>
   filter (\<lambda>r. cr_canvas_id r = cid) (number_connections n rows) = number_connections n rows"
  by (induction rows arbitrary: n) simp_all

lemma connection_row_of_keys:
  "connection_row_of cid st c = Some r \<Longrightarrow> cr_id r = 0 \<and> cr_canvas_id r = cid"
  by (auto simp: connection_row_of_def split: option.splits if_splits)

lemma map_filter_rows_keys:
  "\<forall>r \<in> set (List.map_filter (connection_row_of cid st) cs). cr_id r = 0 \<and> cr_canvas_id r = cid"
  by (auto simp: List.map_filter_def dest: connection_row_of_keys)

lemma stored_connections_after:
  "stored_connections cid
     (touched cid now (connections_after cid st cs (elements_after cid els (cleared cid d)))) =
   List.map_filter (connection_row_of cid st) cs"
proof -
  have "filter (\<lambda>r. cr_canvas_id r = cid) (filter (\<lambda>r. cr_canvas_id r \<noteq> cid) (connections d)) = []"
    by (simp add: filter_empty_conv)
  moreover have "connections (touched cid now (connections_after cid st cs (elements_after cid els (cleared cid d)))) =
      filter (\<lambda>r. cr_canvas_id r \<noteq> cid) (connections d) @
      number_connections (connection_seq d) (List.map_filter (connection_row_of cid st) cs)"
    by (simp add: touched_def connections_after_def elements_after_def cleared_def)
  ultimately show ?thesis
    using map_filter_rows_keys [of cid st cs]
    by (simp add: stored_connections_def filter_canvas_number_connections strip_number_connections)
qed

lemma replaceCanvasState_edges_no_faults:
  assumes "faults d = []" "\<forall>el \<in> set els. \<not> is_null el" "\<forall>c \<in> set conns. \<not> conn_throws parse c"
  shows "fst (replaceCanvasState parse now cid els conns d) \<and>
         stored_connections cid (snd (replaceCanvasState parse now cid els conns d)) =
           List.map_filter (edge_row parse cid (maps_after parse (element_seq d) els empty_maps)) conns"
proof -
  define st where "st = maps_after parse (element_seq d) els empty_maps"
  from preprocess_conns_rows [OF assms(3), of st cid]
  obtain cs where cs: "preprocess_conns parse st conns = Inr cs"
    "List.map_filter (connection_row_of cid st) (filter (valid_connection st) cs) =
     List.map_filter (edge_row parse cid st) conns"
    by blast
  have "replace_body parse now cid els conns d =
      (Inr (), touched cid now (connections_after cid st (filter (valid_connection st) cs)
            (elements_after cid els (cleared cid d))))"
    using cs(1) by (simp add: replace_body_no_faults [OF assms(1,2)] st_def [symmetric])
  then show ?thesis
    using cs(2) by (simp add: replaceCanvasState_def stored_connections_after st_def [symmetric])
qed

lemma and_then_cases:
  "(\<exists>e. fst m = Inl e \<and> and_then m f = (Inl e, snd m)) \<or>
   (\<exists>a. fst m = Inr a \<and> and_then m f = f a (snd m))"
  by (cases m; cases "fst m") (auto simp: and_then_def)


lemma old_or_sound_cong:
  assumes e: "canvas_elements d' = canvas_elements d" and c: "connections d' = connections d"
  shows "old_or_sound cid S d' = old_or_sound cid S d"
proof -
  have "element_ids cid d' = element_ids cid d"
    by (rule element_ids_cong [OF e])
  then have "sound_row cid d' r = sound_row cid d r" for r
    by (rule sound_row_cong) simp_all
  then show ?thesis
    by (simp add: old_or_sound_def c)
qed

lemma old_or_sound_tick [simp]: "old_or_sound cid S (tick d) = old_or_sound cid S d"
  by (rule old_or_sound_cong) simp_all
















section \<open>Properties of the save handler\<close>

lemma respond_simps [simp]: "status (respond c b) = c" "payload (respond c b) = b"
  by (simp_all add: respond_def)

lemma save_failed_simps [simp]:
  "status (save_failed now) = 500" "payload (save_failed now) ''success'' = None"
  "payload (save_failed now) ''partial'' = None"
  by (simp_all add: save_failed_def)

lemma updateCanvas_cases:
  "(next_fails d \<and> updateCanvas cid now d = (Inl DbError, tick d)) \<or>
   (\<not> next_fails d \<and>
    updateCanvas cid now d =
      (Inr (fst (update_canvas_stmt cid now (tick d))), snd (update_canvas_stmt cid now (tick d))))"
  by (simp add: updateCanvas_def statement_def split: prod.split)

lemma save_state_success:
  assumes "fst (replaceCanvasState parse now cid ees ecs d)"
  shows "status (fst (save_state parse now cid ees ecs d)) = 200"
    "payload (fst (save_state parse now cid ees ecs d)) ''success'' = Some (JBool True)"
    "payload (fst (save_state parse now cid ees ecs d)) ''partial'' = None"
    "snd (save_state parse now cid ees ecs d) = snd (replaceCanvasState parse now cid ees ecs d)"
  using assms
  by (cases "replaceCanvasState parse now cid ees ecs d"; simp add: save_state_def)+

lemma save_state_partial:
  assumes "\<not> fst (replaceCanvasState parse now cid ees ecs d)"
    and "\<not> next_fails (snd (replaceCanvasState parse now cid ees ecs d))"
  shows "status (fst (save_state parse now cid ees ecs d)) = 207"
    "payload (fst (save_state parse now cid ees ecs d)) ''partial'' = Some (JBool True)"
    "payload (fst (save_state parse now cid ees ecs d)) ''success'' = None"
    "snd (save_state parse now cid ees ecs d) =
       snd (update_canvas_stmt cid now (tick (snd (replaceCanvasState parse now cid ees ecs d))))"
  using assms updateCanvas_cases [of "snd (replaceCanvasState parse now cid ees ecs d)" cid now]
  by (cases "replaceCanvasState parse now cid ees ecs d"; simp add: save_state_def)+

lemma save_state_failed:
  assumes "\<not> fst (replaceCanvasState parse now cid ees ecs d)"
    and "next_fails (snd (replaceCanvasState parse now cid ees ecs d))"
  shows "status (fst (save_state parse now cid ees ecs d)) = 500"
    "payload (fst (save_state parse now cid ees ecs d)) ''partial'' = None"
    "payload (fst (save_state parse now cid ees ecs d)) ''success'' = None"
    "snd (save_state parse now cid ees ecs d) = tick (snd (replaceCanvasState parse now cid ees ecs d))"
  using assms updateCanvas_cases [of "snd (replaceCanvasState parse now cid ees ecs d)" cid now]
  by (cases "replaceCanvasState parse now cid ees ecs d"; simp add: save_state_def)+

lemma update_canvas_stmt_only_timestamp:
  "canvas_elements (snd (update_canvas_stmt cid now d)) = canvas_elements d"
  "connections (snd (update_canvas_stmt cid now d)) = connections d"
  "canvases (snd (update_canvas_stmt cid now d)) = map (touch cid now) (canvases d)"
  by (simp_all add: update_canvas_stmt_def Let_def)

lemma admit_refusal:
  "fst (admit req now d) = Inl r \<Longrightarrow> status r \<noteq> 200 \<and> payload r ''success'' = None"
  by (auto simp: admit_def split: if_splits option.splits prod.splits sum.splits json.splits)

lemma replaceCanvasState_first_statement_fails:
  "next_fails d \<Longrightarrow> replaceCanvasState parse now cid ees ecs d = (False, tick d)"
  by (simp add: replaceCanvasState_def replace_body_def statement_def and_then_def)

lemma put_state_success_only_after_replace:
  assumes "status (fst (put_state parse now req d)) = 200 \<or>
           payload (fst (put_state parse now req d)) ''success'' = Some (JBool True)"
  shows "\<exists>cid ees ecs d'. put_state parse now req d = save_state parse now cid ees ecs d' \<and>
           fst (replaceCanvasState parse now cid ees ecs d')"
proof (cases "admit req now d")
  case (Pair a d')
  show ?thesis
  proof (cases a)
    case (Inl r)
    with Pair admit_refusal [of req now d r] assms show ?thesis
      by (simp add: put_state_def)
  next
    case (Inr t)
    obtain cid els conns where t: "t = (cid, els, conns)"
      by (cases t) auto
    show ?thesis
    proof (cases "enhance_elements parse els")
      case (Inl e)
      with Pair Inr t assms show ?thesis
        by (simp add: put_state_def)
    next
      case ees: (Inr ees)
      define ecs where "ecs = map (enhanceConnection parse) conns"
      have p: "put_state parse now req d = save_state parse now cid ees ecs d'"
        using Pair Inr t ees by (simp add: put_state_def ecs_def)
      have "fst (replaceCanvasState parse now cid ees ecs d')"
      proof (rule ccontr)
        assume n: "\<not> fst (replaceCanvasState parse now cid ees ecs d')"
        show False
        proof (cases "next_fails (snd (replaceCanvasState parse now cid ees ecs d'))")
          case True
          from save_state_failed(1,3) [OF n True] assms show False
            unfolding p by simp
        next
          case False
          from save_state_partial(1,3) [OF n False] assms show False
            unfolding p by simp
        qed
      qed
      with p show ?thesis by blast
    qed
  qed
qed

lemma admit_owner:
  "faults d = False # False # fs \<Longrightarrow> canvases d = [demo_canvas] \<Longrightarrow>
   admit req_owner now d = (Inr (1, [el_a, el_b], [edge_a_b]), d\<lparr>faults := fs\<rparr>)"
  by (simp add: admit_def req_owner_def getCanvas_def isCollaborator_def statement_def
      next_fails_def tick_def select_canvas_stmt_def select_collaborator_stmt_def demo_canvas_def)

lemma enhance_samples:
  "\<exists>ees. enhance_elements no_parse [el_a, el_b] = Inr ees \<and> length ees = 2"
  by (simp add: enhanceElement_def enhanced_data_def el_a_def el_b_def Let_def
      split: sum.split)

lemma enhanceElement_not_null: "enhanceElement parse el = Inr x \<Longrightarrow> \<not> is_null x"
  by (auto simp: enhanceElement_def Let_def split: sum.splits)

lemma enhance_elements_not_null:
  "enhance_elements parse els = Inr ees \<Longrightarrow> \<forall>x \<in> set ees. \<not> is_null x"
proof (induction els arbitrary: ees)
  case Nil
  then show ?case by simp
next
  case (Cons el els)
  from Cons.prems obtain x xs where x: "enhanceElement parse el = Inr x"
    and xs: "enhance_elements parse els = Inr xs" and e: "ees = x # xs"
    by (auto split: sum.splits)
  from enhanceElement_not_null [OF x] Cons.IH [OF xs] e show ?case
    by simp
qed

lemma enhanceConnection_never_throws: "\<not> conn_throws parse (enhanceConnection parse c)"
  by (simp add: conn_throws_def enhanceConnection_def Let_def style_ids_def)

lemma admit_owner_no_faults:
  "faults d = [] \<Longrightarrow> canvases d = [demo_canvas] \<Longrightarrow>
   admit req_owner now d = (Inr (1, [el_a, el_b], [edge_a_b]), d)"
  by (simp add: admit_def req_owner_def getCanvas_def isCollaborator_def statement_no_faults
      select_canvas_stmt_def select_collaborator_stmt_def demo_canvas_def)

lemma put_state_owner_saved: "status (fst (put_state no_parse 5 req_owner demo_db)) = 200"
proof -
  have f: "faults demo_db = []"
    by (simp add: demo_db_def)
  have a: "admit req_owner 5 demo_db = (Inr (1, [el_a, el_b], [edge_a_b]), demo_db)"
    by (rule admit_owner_no_faults) (simp_all add: demo_db_def)
  from enhance_samples obtain ees where ees: "enhance_elements no_parse [el_a, el_b] = Inr ees"
    by blast
  define ecs where "ecs = map (enhanceConnection no_parse) [edge_a_b]"
  have t: "\<forall>c \<in> set ecs. \<not> conn_throws no_parse c"
    by (simp add: ecs_def enhanceConnection_never_throws)
  from replaceCanvasState_edges_no_faults [OF f enhance_elements_not_null [OF ees] t]
  have "fst (replaceCanvasState no_parse 5 1 ees ecs demo_db)"
    by blast
  from save_state_success(1) [OF this] a ees show ?thesis
    by (simp add: put_state_def ecs_def)
qed

text \<open>
  Claim C7, as the code has it.  When \<open>replaceCanvasState\<close> reports success the handler
  answers 200 with \<open>success: true\<close>.  When it reports failure (it never throws: its whole
  body is guarded) the handler runs one more statement, the update of the canvas
  timestamp, which changes no element and no connection.  If that statement succeeds the
  answer is 207 with \<open>partial: true\<close> and no \<open>success\<close> key; if it throws as well the answer
  is 500 with neither key.  The handler answers 200, or \<open>success: true\<close>, only through a
  save whose \<open>replaceCanvasState\<close> reported success.
\<close>

theorem save_falls_back_to_timestamp:
  "(fst (replaceCanvasState parse now cid ees ecs d) \<longrightarrow>
      status (fst (save_state parse now cid ees ecs d)) = 200 \<and>
      payload (fst (save_state parse now cid ees ecs d)) ''success'' = Some (JBool True) \<and>
      payload (fst (save_state parse now cid ees ecs d)) ''partial'' = None \<and>
      snd (save_state parse now cid ees ecs d) = snd (replaceCanvasState parse now cid ees ecs d)) \<and>
   (\<not> fst (replaceCanvasState parse now cid ees ecs d) \<and>
    \<not> next_fails (snd (replaceCanvasState parse now cid ees ecs d)) \<longrightarrow>
      status (fst (save_state parse now cid ees ecs d)) = 207 \<and>
      payload (fst (save_state parse now cid ees ecs d)) ''partial'' = Some (JBool True) \<and>
      payload (fst (save_state parse now cid ees ecs d)) ''success'' = None \<and>
      canvases (snd (save_state parse now cid ees ecs d)) =
        map (touch cid now) (canvases (snd (replaceCanvasState parse now cid ees ecs d))) \<and>
      canvas_elements (snd (save_state parse now cid ees ecs d)) =
        canvas_elements (snd (replaceCanvasState parse now cid ees ecs d)) \<and>
      connections (snd (save_state parse now cid ees ecs d)) =
        connections (snd (replaceCanvasState parse now cid ees ecs d))) \<and>
   (\<not> fst (replaceCanvasState parse now cid ees ecs d) \<and>
    next_fails (snd (replaceCanvasState parse now cid ees ecs d)) \<longrightarrow>
      status (fst (save_state parse now cid ees ecs d)) = 500 \<and>
      payload (fst (save_state parse now cid ees ecs d)) ''partial'' = None \<and>
      payload (fst (save_state parse now cid ees ecs d)) ''success'' = None \<and>
      snd (save_state parse now cid ees ecs d) =
        tick (snd (replaceCanvasState parse now cid ees ecs d))) \<and>
   (status (fst (put_state parse now req d0)) = 200 \<or>
    payload (fst (put_state parse now req d0)) ''success'' = Some (JBool True) \<longrightarrow>
      (\<exists>cid ees ecs d'. put_state parse now req d0 = save_state parse now cid ees ecs d' \<and>
         fst (replaceCanvasState parse now cid ees ecs d')))"
proof (intro conjI impI)
  assume "status (fst (put_state parse now req d0)) = 200 \<or>
    payload (fst (put_state parse now req d0)) ''success'' = Some (JBool True)"
  then show "\<exists>cid ees ecs d'. put_state parse now req d0 = save_state parse now cid ees ecs d' \<and>
         fst (replaceCanvasState parse now cid ees ecs d')"
    by (rule put_state_success_only_after_replace)
qed (simp_all add: save_state_success save_state_partial save_state_failed
      update_canvas_stmt_only_timestamp tick_def)

theorem save_falls_back_to_timestamp_witness:
  "fst (replaceCanvasState no_parse 5 1 [el_a] [] demo_db) \<and>
   status (fst (save_state no_parse 5 1 [el_a] [] demo_db)) = 200 \<and>
   payload (fst (save_state no_parse 5 1 [el_a] [] demo_db)) ''success'' = Some (JBool True) \<and>
   \<not> fst (replaceCanvasState no_parse 5 1 [el_a] [] (demo_db\<lparr>faults := [True]\<rparr>)) \<and>
   \<not> next_fails (snd (replaceCanvasState no_parse 5 1 [el_a] [] (demo_db\<lparr>faults := [True]\<rparr>))) \<and>
   status (fst (save_state no_parse 5 1 [el_a] [] (demo_db\<lparr>faults := [True]\<rparr>))) = 207 \<and>
   payload (fst (save_state no_parse 5 1 [el_a] [] (demo_db\<lparr>faults := [True]\<rparr>))) ''partial'' =
     Some (JBool True) \<and>
   map updatedAt (canvases (snd (save_state no_parse 5 1 [el_a] [] (demo_db\<lparr>faults := [True]\<rparr>)))) = [5] \<and>
   \<not> fst (replaceCanvasState no_parse 5 1 [el_a] [] (demo_db\<lparr>faults := [True, True]\<rparr>)) \<and>
   next_fails (snd (replaceCanvasState no_parse 5 1 [el_a] [] (demo_db\<lparr>faults := [True, True]\<rparr>))) \<and>
   status (fst (save_state no_parse 5 1 [el_a] [] (demo_db\<lparr>faults := [True, True]\<rparr>))) = 500 \<and>
   status (fst (put_state no_parse 5 req_owner demo_db)) = 200 \<and>
   (\<exists>cid ees ecs d'. put_state no_parse 5 req_owner demo_db = save_state no_parse 5 cid ees ecs d' \<and>
      fst (replaceCanvasState no_parse 5 cid ees ecs d'))"
proof -
  define d1 where "d1 = demo_db\<lparr>faults := [True]\<rparr>"
  define d2 where "d2 = demo_db\<lparr>faults := [True, True]\<rparr>"
  have f: "faults demo_db = []"
    by (simp add: demo_db_def)
  have ok: "fst (replaceCanvasState no_parse 5 1 [el_a] [] demo_db)"
    using replaceCanvasState_edges_no_faults [OF f, of "[el_a]" "[]" no_parse 5 1]
    by (simp add: el_a_def)
  have r1: "replaceCanvasState no_parse 5 1 [el_a] [] d1 = (False, tick d1)"
    by (rule replaceCanvasState_first_statement_fails) (simp add: d1_def next_fails_def)
  have r2: "replaceCanvasState no_parse 5 1 [el_a] [] d2 = (False, tick d2)"
    by (rule replaceCanvasState_first_statement_fails) (simp add: d2_def next_fails_def)
  have n1: "\<not> fst (replaceCanvasState no_parse 5 1 [el_a] [] d1)"
    "\<not> next_fails (snd (replaceCanvasState no_parse 5 1 [el_a] [] d1))"
    unfolding r1 by (simp_all add: d1_def next_fails_def tick_def)
  have n2: "\<not> fst (replaceCanvasState no_parse 5 1 [el_a] [] d2)"
    "next_fails (snd (replaceCanvasState no_parse 5 1 [el_a] [] d2))"
    unfolding r2 by (simp_all add: d2_def next_fails_def tick_def)
  have c1: "map updatedAt (map (touch 1 5) (canvases (snd (replaceCanvasState no_parse 5 1 [el_a] [] d1)))) = [5]"
    unfolding r1 by (simp add: d1_def tick_def demo_db_def demo_canvas_def touch_def)
  note a = save_falls_back_to_timestamp
    [where parse = no_parse and now = 5 and cid = 1 and ees = "[el_a]" and ecs = "[]"
       and d = demo_db and req = req_owner and ?d0.0 = demo_db]
  note b = save_falls_back_to_timestamp
    [where parse = no_parse and now = 5 and cid = 1 and ees = "[el_a]" and ecs = "[]"
       and d = d1 and req = req_owner and ?d0.0 = demo_db]
  note c = save_falls_back_to_timestamp
    [where parse = no_parse and now = 5 and cid = 1 and ees = "[el_a]" and ecs = "[]"
       and d = d2 and req = req_owner and ?d0.0 = demo_db]
  from a ok have 1: "status (fst (save_state no_parse 5 1 [el_a] [] demo_db)) = 200"
    "payload (fst (save_state no_parse 5 1 [el_a] [] demo_db)) ''success'' = Some (JBool True)"
    by blast+
  from b n1 have 2: "status (fst (save_state no_parse 5 1 [el_a] [] d1)) = 207"
    "payload (fst (save_state no_parse 5 1 [el_a] [] d1)) ''partial'' = Some (JBool True)"
    "canvases (snd (save_state no_parse 5 1 [el_a] [] d1)) =
        map (touch 1 5) (canvases (snd (replaceCanvasState no_parse 5 1 [el_a] [] d1)))"
    by blast+
  from 2(3) c1 have 3: "map updatedAt (canvases (snd (save_state no_parse 5 1 [el_a] [] d1))) = [5]"
    by simp
  from c n2 have 4: "status (fst (save_state no_parse 5 1 [el_a] [] d2)) = 500"
    by blast
  from a put_state_owner_saved
  have 5: "\<exists>cid ees ecs d'. put_state no_parse 5 req_owner demo_db = save_state no_parse 5 cid ees ecs d' \<and>
      fst (replaceCanvasState no_parse 5 cid ees ecs d')"
    by blast
  from ok 1 n1 2(1,2) 3 n2 4 put_state_owner_saved 5 show ?thesis
    unfolding d1_def d2_def by blast
qed

text \<open>
  When the store is down both the replacement and the fallback fail, and the answer is
  500, not the partial-failure status.
\<close>

theorem save_fallback_can_fail:
  "\<not> fst (replaceCanvasState no_parse 5 1 [el_a] [] (demo_db\<lparr>faults := [True, True]\<rparr>)) \<and>
   status (fst (save_state no_parse 5 1 [el_a] [] (demo_db\<lparr>faults := [True, True]\<rparr>))) = 500 \<and>
   payload (fst (save_state no_parse 5 1 [el_a] [] (demo_db\<lparr>faults := [True, True]\<rparr>))) ''partial'' = None \<and>
   status (fst (put_state no_parse 5 req_owner db_down)) = 500 \<and>
   payload (fst (put_state no_parse 5 req_owner db_down)) ''partial'' = None"
proof -
  define d2 where "d2 = demo_db\<lparr>faults := [True, True]\<rparr>"
  have nf: "next_fails d2" "next_fails (tick d2)"
    by (simp_all add: d2_def next_fails_def tick_def)
  have r: "replaceCanvasState no_parse 5 1 ees ecs d2 = (False, tick d2)" for ees ecs
    by (rule replaceCanvasState_first_statement_fails [OF nf(1)])
  have s: "status (fst (save_state no_parse 5 1 ees ecs d2)) = 500 \<and>
      payload (fst (save_state no_parse 5 1 ees ecs d2)) ''partial'' = None" for ees ecs
  proof -
    have n: "\<not> fst (replaceCanvasState no_parse 5 1 ees ecs d2)"
      unfolding r by simp
    have n2: "next_fails (snd (replaceCanvasState no_parse 5 1 ees ecs d2))"
      unfolding r using nf(2) by simp
    from save_state_failed(1,2) [OF n n2] show ?thesis
      by blast
  qed
  have "admit req_owner 5 db_down = (Inr (1, [el_a, el_b], [edge_a_b]), db_down\<lparr>faults := [True, True]\<rparr>)"
    by (rule admit_owner) (simp_all add: db_down_def demo_db_def)
  also have "db_down\<lparr>faults := [True, True]\<rparr> = d2"
    by (simp add: db_down_def d2_def)
  finally have a: "admit req_owner 5 db_down = (Inr (1, [el_a, el_b], [edge_a_b]), d2)" .
  from enhance_samples obtain ees where "enhance_elements no_parse [el_a, el_b] = Inr ees"
    by blast
  with a have "put_state no_parse 5 req_owner db_down =
      save_state no_parse 5 1 ees (map (enhanceConnection no_parse) [edge_a_b]) d2"
    by (simp add: put_state_def)
  moreover
  have "\<not> fst (replaceCanvasState no_parse 5 1 [el_a] [] d2)"
    unfolding r by simp
  ultimately show ?thesis
    using s [of ees "map (enhanceConnection no_parse) [edge_a_b]"] s [of "[el_a]" "[]"]
    unfolding d2_def by presburger
qed

section \<open>Canvas visibility\<close>

lemma set_visibility_id: "canvas_id (set_visibility cid v p now c) = canvas_id c"
  by (simp add: set_visibility_def)

lemma set_visibility_hit:
  "canvas_id c = cid \<Longrightarrow>
   visibility (set_visibility cid v p now c) = v \<and>
   isPublic (set_visibility cid v p now c) = p \<and>
   updatedAt (set_visibility cid v p now c) = now"
  by (simp add: set_visibility_def)

lemma set_visibility_miss: "canvas_id c \<noteq> cid \<Longrightarrow> set_visibility cid v p now c = c"
  by (simp add: set_visibility_def)

lemma find_set_visibility:
  "find (\<lambda>c. canvas_id c = cid) (map (set_visibility cid v p now) cs) =
   map_option (set_visibility cid v p now) (find (\<lambda>c. canvas_id c = cid) cs)"
  by (induction cs) (simp_all add: set_visibility_id)

lemma updateCanvasVisibility_ok:
  assumes "v \<in> set valid_visibilities" "\<not> next_fails d"
  shows "updateCanvasVisibility cid v now d =
     (Inr (find (\<lambda>c. canvas_id c = cid) (map (set_visibility cid v (v = ''public'') now) (canvases d))),
      (tick d)\<lparr>canvases := map (set_visibility cid v (v = ''public'') now) (canvases d)\<rparr>)"
  using assms
  by (simp add: updateCanvasVisibility_def statement_def update_visibility_stmt_def Let_def tick_def)

text \<open>
  Claim C10.  For a visibility among \<open>private\<close>, \<open>collaborative\<close> and \<open>public\<close>,
  \<open>updateCanvasVisibility\<close> (when its one statement runs) writes \<open>visibility\<close>, \<open>isPublic\<close> and
  \<open>updatedAt\<close> of the canvas with the given id in the same update, with
  \<open>isPublic = (visibility = ''public'')\<close>, returns that row and leaves every other canvas as it was;
  for any other value it throws before any statement, and the store is unchanged.
\<close>

theorem updateCanvasVisibility_isPublic:
  "(v \<in> set valid_visibilities \<longrightarrow> \<not> next_fails d \<longrightarrow>
      (\<exists>r d'. updateCanvasVisibility cid v now d = (Inr r, d') \<and>
         r = find (\<lambda>c. canvas_id c = cid) (canvases d') \<and>
         map canvas_id (canvases d') = map canvas_id (canvases d) \<and>
         (\<forall>c \<in> set (canvases d'). canvas_id c = cid \<longrightarrow>
            visibility c = v \<and> isPublic c = (v = ''public'') \<and> updatedAt c = now) \<and>
         (\<forall>i < length (canvases d). canvas_id (canvases d ! i) \<noteq> cid \<longrightarrow>
            canvases d' ! i = canvases d ! i))) \<and>
   (v \<notin> set valid_visibilities \<longrightarrow>
      updateCanvasVisibility cid v now d = (Inl InvalidVisibility, d))"
proof (intro conjI impI)
  assume ok: "v \<in> set valid_visibilities" "\<not> next_fails d"
  define f where "f = set_visibility cid v (v = ''public'') now"
  define d' where "d' = (tick d)\<lparr>canvases := map f (canvases d)\<rparr>"
  have cs: "canvases d' = map f (canvases d)"
    by (simp add: d'_def)
  have 1: "updateCanvasVisibility cid v now d = (Inr (find (\<lambda>c. canvas_id c = cid) (canvases d')), d')"
    unfolding cs unfolding d'_def f_def by (rule updateCanvasVisibility_ok [OF ok])
  have 2: "map canvas_id (canvases d') = map canvas_id (canvases d)"
    unfolding cs by (simp add: f_def set_visibility_id)
  have 3: "\<forall>c \<in> set (canvases d'). canvas_id c = cid \<longrightarrow>
            visibility c = v \<and> isPublic c = (v = ''public'') \<and> updatedAt c = now"
  proof (intro ballI impI)
    fix c assume c: "c \<in> set (canvases d')" "canvas_id c = cid"
    then obtain x where x: "c = f x" unfolding cs by (auto simp: image_iff)
    with c(2) have "canvas_id x = cid" by (simp add: f_def set_visibility_id)
    from set_visibility_hit [OF this, of v "v = ''public''" now]
    show "visibility c = v \<and> isPublic c = (v = ''public'') \<and> updatedAt c = now"
      unfolding x f_def .
  qed
  have 4: "\<forall>i < length (canvases d). canvas_id (canvases d ! i) \<noteq> cid \<longrightarrow>
      canvases d' ! i = canvases d ! i"
    unfolding cs by (simp add: f_def set_visibility_miss)
  from 1 2 3 4 show "\<exists>r d'. updateCanvasVisibility cid v now d = (Inr r, d') \<and>
         r = find (\<lambda>c. canvas_id c = cid) (canvases d') \<and>
         map canvas_id (canvases d') = map canvas_id (canvases d) \<and>
         (\<forall>c \<in> set (canvases d'). canvas_id c = cid \<longrightarrow>
            visibility c = v \<and> isPublic c = (v = ''public'') \<and> updatedAt c = now) \<and>
         (\<forall>i < length (canvases d). canvas_id (canvases d ! i) \<noteq> cid \<longrightarrow>
            canvases d' ! i = canvases d ! i)"
    by blast
next
  assume "v \<notin> set valid_visibilities"
  then show "updateCanvasVisibility cid v now d = (Inl InvalidVisibility, d)"
    by (simp add: updateCanvasVisibility_def)
qed

theorem updateCanvasVisibility_isPublic_witness:
  "''public'' \<in> set valid_visibilities \<and> \<not> next_fails demo_db \<and>
   (\<exists>c d'. updateCanvasVisibility 1 ''public'' 99 demo_db = (Inr (Some c), d') \<and>
      visibility c = ''public'' \<and> isPublic c \<and> updatedAt c = 99) \<and>
   ''secret'' \<notin> set valid_visibilities \<and>
   updateCanvasVisibility 1 ''secret'' 99 demo_db = (Inl InvalidVisibility, demo_db)"
proof -
  have a: "''public'' \<in> set valid_visibilities" by (simp add: valid_visibilities_def)
  have b: "\<not> next_fails demo_db" by (simp add: next_fails_def demo_db_def)
  have c: "''secret'' \<notin> set valid_visibilities" by (simp add: valid_visibilities_def)
  from updateCanvasVisibility_isPublic [of "''public''" demo_db 1 99] a b
  obtain r d' where r: "updateCanvasVisibility 1 ''public'' 99 demo_db = (Inr r, d')"
    and f: "r = find (\<lambda>c. canvas_id c = 1) (canvases d')"
    and m: "map canvas_id (canvases d') = map canvas_id (canvases demo_db)"
    and p: "\<forall>c \<in> set (canvases d'). canvas_id c = 1 \<longrightarrow>
            visibility c = ''public'' \<and> isPublic c = (''public'' = ''public'') \<and> updatedAt c = 99"
    by blast
  from m have "map canvas_id (canvases d') = [1]"
    by (simp add: demo_db_def demo_canvas_def)
  then obtain c0 where c0: "canvases d' = [c0]" "canvas_id c0 = 1"
    by (cases "canvases d'") auto
  from f c0 have "r = Some c0" by simp
  moreover from p c0 have "visibility c0 = ''public''" "isPublic c0" "updatedAt c0 = 99"
    by simp_all
  moreover from c updateCanvasVisibility_isPublic [of "''secret''" demo_db 1 99]
  have "updateCanvasVisibility 1 ''secret'' 99 demo_db = (Inl InvalidVisibility, demo_db)"
    by blast
  ultimately show ?thesis using r a b c by blast
qed

section \<open>Properties of the live channels\<close>

subsection \<open>The registry operations\<close>

lemma emit_simps [simp]:
  "socks (emit e w) = socks w" "clients (emit e w) = clients w"
  "registry (emit e w) = registry w" "log (emit e w) = log w @ [e]"
  by (simp_all add: emit_def)

lemma update_sock_simps [simp]:
  "socks (update_sock s f w) = (socks w)(s := f (socks w s))"
  "clients (update_sock s f w) = clients w"
  "registry (update_sock s f w) = registry w" "log (update_sock s f w) = log w"
  by (simp_all add: update_sock_def)

lemma ws_send_simps [simp]:
  "socks (snd (ws_send s t w)) = socks w" "clients (snd (ws_send s t w)) = clients w"
  "registry (snd (ws_send s t w)) = registry w" "log (snd (ws_send s t w)) = log w @ [Send s t]"
  "fst (ws_send s t w) = (\<not> send_throws (socks w s))"
  by (simp_all add: ws_send_def)

lemma try_send_json_simps [simp]:
  "socks (try_send_json s m w) = socks w" "clients (try_send_json s m w) = clients w"
  "registry (try_send_json s m w) = registry w"
  "log (try_send_json s m w) = log w @ [Stringify m, Send s (Wire m)]"
  by (simp_all add: try_send_json_def)

lemma canvas_users_cong: "registry w' = registry w \<Longrightarrow> canvas_users w' c = canvas_users w c"
  by (simp add: canvas_users_def)

lemma canvas_users_emit [simp]: "canvas_users (emit e w) c = canvas_users w c"
  by (simp add: canvas_users_def)

lemma canvas_users_update_sock [simp]: "canvas_users (update_sock s f w) c = canvas_users w c"
  by (simp add: canvas_users_def)

lemma canvas_users_try_send [simp]: "canvas_users (try_send_json s m w) c = canvas_users w c"
  by (simp add: canvas_users_def)

lemma getCanvasConnections_simps [simp]:
  "socks (getCanvasConnections c w) = socks w" "clients (getCanvasConnections c w) = clients w"
  "log (getCanvasConnections c w) = log w"
  "canvas_users (getCanvasConnections c w) c' = canvas_users w c'"
  by (auto simp: getCanvasConnections_def canvas_users_def map_add_def split: option.splits)

lemma users_set_simps [simp]:
  "socks (users_set c u s w) = socks w" "clients (users_set c u s w) = clients w"
  "log (users_set c u s w) = log w"
  "canvas_users (users_set c u s w) c' =
     (if c' = c then AList.update u s (canvas_users w c) else canvas_users w c')"
  by (simp_all add: users_set_def canvas_users_def update_conv')

lemma users_delete_simps [simp]:
  "socks (users_delete c u w) = socks w" "clients (users_delete c u w) = clients w"
  "log (users_delete c u w) = log w"
  "canvas_users (users_delete c u w) c' =
     (if c' = c then AList.delete u (canvas_users w c) else canvas_users w c')"
  by (simp_all add: users_delete_def canvas_users_def update_conv')

lemma registry_wf_alt:
  "registry_wf w = (distinct (map fst (registry w)) \<and> (\<forall>c. distinct (map fst (canvas_users w c))))"
proof -
  have "(\<forall>p \<in> set (registry w). distinct (map fst (snd p))) =
        (\<forall>c. distinct (map fst (canvas_users w c)))" if d: "distinct (map fst (registry w))"
  proof
    assume a: "\<forall>p \<in> set (registry w). distinct (map fst (snd p))"
    show "\<forall>c. distinct (map fst (canvas_users w c))"
    proof
      fix c
      show "distinct (map fst (canvas_users w c))"
      proof (cases "map_of (registry w) c")
        case None
        then show ?thesis by (simp add: canvas_users_def)
      next
        case (Some us)
        then have "(c, us) \<in> set (registry w)" by (rule map_of_SomeD)
        with a Some show ?thesis by (auto simp: canvas_users_def)
      qed
    qed
  next
    assume a: "\<forall>c. distinct (map fst (canvas_users w c))"
    show "\<forall>p \<in> set (registry w). distinct (map fst (snd p))"
    proof
      fix p assume "p \<in> set (registry w)"
      then have "(fst p, snd p) \<in> set (registry w)" by simp
      with d have "map_of (registry w) (fst p) = Some (snd p)" by (rule map_of_is_SomeI)
      with a [rule_format, of "fst p"] show "distinct (map fst (snd p))"
        by (simp add: canvas_users_def)
    qed
  qed
  then show ?thesis by (auto simp: registry_wf_def)
qed

lemma registry_wf_getCanvasConnections [simp]:
  "registry_wf (getCanvasConnections c w) = registry_wf w"
  by (auto simp: registry_wf_def getCanvasConnections_def map_of_eq_None_iff)

lemma registry_users_set: "map fst (registry (users_set c u s w)) =
    (if c \<in> fst ` set (registry w) then map fst (registry w) else map fst (registry w) @ [c])"
  by (simp add: users_set_def update_keys)

lemma registry_users_delete: "map fst (registry (users_delete c u w)) =
    (if c \<in> fst ` set (registry w) then map fst (registry w) else map fst (registry w) @ [c])"
  by (simp add: users_delete_def update_keys)

lemma registry_wf_users_set:
  "registry_wf w \<Longrightarrow> registry_wf (users_set c u s w)"
  unfolding registry_wf_alt by (simp add: registry_users_set distinct_update)

lemma registry_wf_users_delete:
  "registry_wf w \<Longrightarrow> registry_wf (users_delete c u w)"
  unfolding registry_wf_alt by (simp add: registry_users_delete distinct_delete)

subsection \<open>Fanout\<close>

lemma recipients_cong: "socks w' = socks w \<Longrightarrow> recipients w' ex us = recipients w ex us"
  by (simp add: recipients_def)

lemma failing_cong: "socks w' = socks w \<Longrightarrow> failing w' ex p = failing w ex p"
  by (simp add: failing_def)

lemma broadcast_entry_frame [simp]:
  "socks (fst (broadcast_entry t ex p w)) = socks w"
  "clients (fst (broadcast_entry t ex p w)) = clients w"
  "registry (fst (broadcast_entry t ex p w)) = registry w"
  by (auto simp: broadcast_entry_def safeSendMessage_def ws_send_def split: prod.splits bool.splits)

lemma broadcast_entry_log:
  "log (fst (broadcast_entry t ex p w)) = log w @ map (\<lambda>p. Send (snd p) t) (recipients w ex [p])"
  by (auto simp: broadcast_entry_def safeSendMessage_def ws_send_def recipients_def
      isSocketConnected_def split: prod.splits bool.splits)

lemma broadcast_entry_removed:
  "snd (broadcast_entry t ex p w) = map fst (filter (failing w ex) [p])"
  by (cases "readyState (socks w (snd p))")
     (auto simp: broadcast_entry_def safeSendMessage_def ws_send_def failing_def
      isSocketConnected_def split: prod.splits bool.splits)

lemma broadcast_loop_frame [simp]:
  "socks (fst (broadcast_loop t ex us w)) = socks w"
  "clients (fst (broadcast_loop t ex us w)) = clients w"
  "registry (fst (broadcast_loop t ex us w)) = registry w"
proof (induction us arbitrary: w)
  case Nil
  {
    case 1 show ?case by simp
  next
    case 2 show ?case by simp
  next
    case 3 show ?case by simp
  }
next
  case (Cons p us)
  {
    case 1
    show ?case
      using Cons.IH(1) [of "fst (broadcast_entry t ex p w)"]
      by (simp split: prod.splits) (metis broadcast_entry_frame(1) fst_conv)
  next
    case 2
    show ?case
      using Cons.IH(2) [of "fst (broadcast_entry t ex p w)"]
      by (simp split: prod.splits) (metis broadcast_entry_frame(2) fst_conv)
  next
    case 3
    show ?case
      using Cons.IH(3) [of "fst (broadcast_entry t ex p w)"]
      by (simp split: prod.splits) (metis broadcast_entry_frame(3) fst_conv)
  }
qed

lemma recipients_Cons: "recipients w ex (p # us) = recipients w ex [p] @ recipients w ex us"
  by (simp add: recipients_def)

lemma broadcast_loop_log:
  "log (fst (broadcast_loop t ex us w)) = log w @ map (\<lambda>p. Send (snd p) t) (recipients w ex us)"
proof (induction us arbitrary: w)
  case Nil
  show ?case by (simp add: recipients_def)
next
  case (Cons p us)
  define w1 where "w1 = fst (broadcast_entry t ex p w)"
  have s: "socks w1 = socks w" by (simp add: w1_def)
  have "log (fst (broadcast_loop t ex (p # us) w)) = log (fst (broadcast_loop t ex us w1))"
    by (simp add: w1_def split: prod.splits)
  also have "\<dots> = log w1 @ map (\<lambda>p. Send (snd p) t) (recipients w1 ex us)"
    by (rule Cons.IH)
  also have "log w1 = log w @ map (\<lambda>p. Send (snd p) t) (recipients w ex [p])"
    unfolding w1_def by (rule broadcast_entry_log)
  also have "recipients w1 ex us = recipients w ex us"
    by (rule recipients_cong [OF s])
  finally show ?case
    by (simp add: recipients_Cons [of w ex p us])
qed

lemma broadcast_loop_removed:
  "snd (broadcast_loop t ex us w) = map fst (filter (failing w ex) us)"
proof (induction us arbitrary: w)
  case Nil
  show ?case by simp
next
  case (Cons p us)
  define w1 where "w1 = fst (broadcast_entry t ex p w)"
  have s: "socks w1 = socks w" by (simp add: w1_def)
  have "snd (broadcast_loop t ex (p # us) w) =
      snd (broadcast_entry t ex p w) @ snd (broadcast_loop t ex us w1)"
    by (simp add: w1_def split: prod.splits)
  also have "snd (broadcast_loop t ex us w1) = map fst (filter (failing w1 ex) us)"
    by (rule Cons.IH)
  also have "failing w1 ex = failing w ex"
    by (intro ext) (rule failing_cong [OF s])
  finally show ?case
    by (simp add: broadcast_entry_removed)
qed

lemma fold_users_delete_frame [simp]:
  "socks (fold (users_delete c) rs w) = socks w"
  "clients (fold (users_delete c) rs w) = clients w"
  "log (fold (users_delete c) rs w) = log w"
  by (induction rs arbitrary: w) simp_all

lemma alist_delete_filter: "AList.delete k al = filter (\<lambda>p. fst p \<noteq> k) al"
  by (induction al) auto

lemma fold_users_delete_users:
  "canvas_users (fold (users_delete c) rs w) c' =
     (if c' = c then filter (\<lambda>p. fst p \<notin> set rs) (canvas_users w c) else canvas_users w c')"
  by (induction rs arbitrary: w) (auto simp: alist_delete_filter intro: filter_cong)

lemma registry_wf_fold_users_delete:
  "registry_wf w \<Longrightarrow> registry_wf (fold (users_delete c) rs w)"
  by (induction rs arbitrary: w) (simp_all add: registry_wf_users_delete)

lemma broadcastToCanvas_unfold:
  "broadcastToCanvas c m ex w0 =
     (if canvas_users w0 c = [] then getCanvasConnections c w0
      else fold (users_delete c)
             (snd (broadcast_loop (Wire m) ex (canvas_users w0 c) (emit (Stringify m) (getCanvasConnections c w0))))
             (fst (broadcast_loop (Wire m) ex (canvas_users w0 c) (emit (Stringify m) (getCanvasConnections c w0)))))"
  by (simp add: broadcastToCanvas_def Let_def split: prod.splits)

lemma broadcastToCanvas_frame [simp]:
  "socks (broadcastToCanvas c m ex w) = socks w"
  "clients (broadcastToCanvas c m ex w) = clients w"
  by (simp_all add: broadcastToCanvas_unfold)

lemma broadcastToCanvas_log:
  "log (broadcastToCanvas c m ex w) = log w @ broadcast_events w m ex (canvas_users w c)"
proof -
  have "recipients (emit (Stringify m) (getCanvasConnections c w)) ex us = recipients w ex us" for us
    by (rule recipients_cong) simp
  then show ?thesis
    by (simp add: broadcastToCanvas_unfold broadcast_events_def broadcast_loop_log)
qed

lemma broadcastToCanvas_users:
  "canvas_users (broadcastToCanvas c m ex w) c' =
     (if c' = c
      then filter (\<lambda>p. fst p \<notin> fst ` {q \<in> set (canvas_users w c). failing w ex q}) (canvas_users w c)
      else canvas_users w c')"
proof -
  have "failing (emit (Stringify m) (getCanvasConnections c w)) ex = failing w ex"
    by (intro ext) (rule failing_cong, simp)
  moreover have "canvas_users (fst (broadcast_loop t ex us v)) k = canvas_users v k" for t us v k
    by (rule canvas_users_cong) simp
  ultimately show ?thesis
    by (auto simp: broadcastToCanvas_unfold fold_users_delete_users broadcast_loop_removed
        intro: filter_cong)
qed

lemma registry_wf_broadcastToCanvas:
  "registry_wf w \<Longrightarrow> registry_wf (broadcastToCanvas c m ex w)"
proof -
  assume wf: "registry_wf w"
  have "registry_wf (fst (broadcast_loop t ex us v)) = registry_wf v" for t us v
    by (simp add: registry_wf_def)
  moreover have "registry_wf (emit e v) = registry_wf v" for e v
    by (simp add: registry_wf_def)
  ultimately show ?thesis
    using wf by (simp add: broadcastToCanvas_unfold registry_wf_fold_users_delete)
qed

lemma sent_to_append: "sent_to s (xs @ ys) = sent_to s xs @ sent_to s ys"
  by (induction s xs rule: sent_to.induct) simp_all

lemma sent_to_sends:
  "sent_to s (map (\<lambda>p. Send (snd p) t) ps) = map (\<lambda>p. t) (filter (\<lambda>p. snd p = s) ps)"
  by (induction ps) simp_all

lemma stringified_sends: "stringified (map (\<lambda>p. Send (snd p) t) ps) = []"
  by (induction ps) simp_all

lemma distinct_snd_filter:
  "distinct (map snd ps) \<Longrightarrow> (k, s) \<in> set ps \<Longrightarrow> filter (\<lambda>p. snd p = s) ps = [(k, s)]"
proof (induction ps)
  case Nil
  then show ?case by simp
next
  case (Cons p ps)
  show ?case
  proof (cases "p = (k, s)")
    case True
    with Cons.prems(1) have "\<forall>q \<in> set ps. snd q \<noteq> s"
      by (auto simp: image_iff)
    then have "filter (\<lambda>p. snd p = s) ps = []"
      by (simp add: filter_empty_conv)
    with True show ?thesis by simp
  next
    case False
    with Cons.prems have in_ps: "(k, s) \<in> set ps" and d: "distinct (map snd ps)"
      by simp_all
    with Cons.prems(1) have "snd p \<noteq> s"
      by (auto simp: image_iff)
    with Cons.IH [OF d in_ps] show ?thesis by simp
  qed
qed

lemma distinct_snd_recipients:
  "distinct (map snd us) \<Longrightarrow> distinct (map snd (recipients w ex us))"
  by (simp add: recipients_def distinct_map_filter)

lemma sent_to_broadcast_events:
  "sent_to s (broadcast_events w m ex us) =
     map (\<lambda>p. Wire m) (filter (\<lambda>p. snd p = s) (recipients w ex us))"
  by (simp add: broadcast_events_def sent_to_sends recipients_def)

lemma excluded_gets_nothing:
  assumes "distinct (map snd us)" "(u, s) \<in> set us"
  shows "sent_to s (broadcast_events w m (Some u) us) = []"
proof -
  have "snd p \<noteq> s" if "p \<in> set (recipients w (Some u) us)" for p
  proof
    assume e: "snd p = s"
    from that have p: "p \<in> set us" "fst p \<noteq> u"
      by (auto simp: recipients_def)
    from p(1) have "(fst p, snd p) \<in> set us" by simp
    then have "(fst p, s) \<in> set us" unfolding e .
    with assms p(1) e have "fst p = u"
      by (metis distinct_snd_filter list.inject prod.collapse prod.inject)
    with p(2) show False by simp
  qed
  then have "filter (\<lambda>p. snd p = s) (recipients w (Some u) us) = []"
    by (simp add: filter_empty_conv)
  then show ?thesis
    by (simp add: sent_to_broadcast_events)
qed

lemma others_get_one:
  assumes "distinct (map snd us)" "(k, s) \<in> set us" "ex \<noteq> Some k"
  shows "sent_to s (broadcast_events w m ex us) =
           (if readyState (socks w s) = OPEN then [Wire m] else [])"
proof (cases "readyState (socks w s) = OPEN")
  case True
  with assms(2,3) have "(k, s) \<in> set (recipients w ex us)"
    by (simp add: recipients_def)
  from distinct_snd_filter [OF distinct_snd_recipients [OF assms(1)] this] True
  show ?thesis
    by (simp add: sent_to_broadcast_events)
next
  case False
  then have "filter (\<lambda>p. snd p = s) (recipients w ex us) = []"
    by (auto simp: recipients_def filter_empty_conv)
  with False show ?thesis
    by (simp add: sent_to_broadcast_events)
qed

lemma distinct_fst_unique:
  "distinct (map fst us) \<Longrightarrow> p \<in> set us \<Longrightarrow> q \<in> set us \<Longrightarrow> fst p = fst q \<Longrightarrow> p = q"
  by (metis eq_key_imp_eq_value prod.collapse)

lemma unregistered_after_broadcast:
  assumes "distinct (map fst (canvas_users w c))"
  shows "canvas_users (broadcastToCanvas c m ex w) c =
           filter (\<lambda>p. \<not> failing w ex p) (canvas_users w c)"
proof -
  have "(fst p \<notin> fst ` {q \<in> set (canvas_users w c). failing w ex q}) = (\<not> failing w ex p)"
    if "p \<in> set (canvas_users w c)" for p
  proof
    assume "fst p \<notin> fst ` {q \<in> set (canvas_users w c). failing w ex q}"
    with that show "\<not> failing w ex p" by blast
  next
    assume n: "\<not> failing w ex p"
    show "fst p \<notin> fst ` {q \<in> set (canvas_users w c). failing w ex q}"
    proof
      assume "fst p \<in> fst ` {q \<in> set (canvas_users w c). failing w ex q}"
      then obtain q where q: "q \<in> set (canvas_users w c)" "failing w ex q" "fst p = fst q"
        by blast
      from distinct_fst_unique [OF assms that q(1) q(3)] q(2) n show False by simp
    qed
  qed
  then show ?thesis
    by (simp add: broadcastToCanvas_users cong: filter_cong)
qed

lemma stringified_broadcast_events:
  "stringified (broadcast_events w m ex us) = (if us = [] then [] else [m])"
  by (simp add: broadcast_events_def stringified_sends)

lemma broadcast_loop_keeps_registry:
  "registry (fst (broadcast_loop (Wire m) ex (canvas_users w c)
      (emit (Stringify m) (getCanvasConnections c w)))) = registry (getCanvasConnections c w)"
  by simp

text \<open>
  Claim C4, as the code has it.  The calls a broadcast adds to the log are one
  serialization of the message (none when the canvas has no registration) followed by one
  \<open>send\<close> of that text for every entry of the canvas, in order, whose user id is not the
  excluded one and whose socket is open.  While the entries are visited the registry is
  not touched; afterwards the entries whose socket was closed or closing, or whose
  \<open>send\<close> threw, are deleted and all others stay.  So, when no socket is registered under
  two user ids of the canvas, the socket of the excluded user gets nothing and every other
  open socket gets the text exactly once.
\<close>

theorem broadcastToCanvas_fanout:
  "log (broadcastToCanvas c m ex w) = log w @ broadcast_events w m ex (canvas_users w c) \<and>
   stringified (broadcast_events w m ex (canvas_users w c)) =
     (if canvas_users w c = [] then [] else [m]) \<and>
   socks (broadcastToCanvas c m ex w) = socks w \<and>
   registry (fst (broadcast_loop (Wire m) ex (canvas_users w c)
      (emit (Stringify m) (getCanvasConnections c w)))) = registry (getCanvasConnections c w) \<and>
   (distinct (map fst (canvas_users w c)) \<longrightarrow>
      canvas_users (broadcastToCanvas c m ex w) c =
        filter (\<lambda>p. \<not> failing w ex p) (canvas_users w c)) \<and>
   (distinct (map snd (canvas_users w c)) \<longrightarrow>
      (\<forall>p \<in> set (canvas_users w c).
         sent_to (snd p) (broadcast_events w m ex (canvas_users w c)) =
           (if ex \<noteq> Some (fst p) \<and> readyState (socks w (snd p)) = OPEN then [Wire m] else [])))"
proof (intro conjI impI ballI)
  fix p
  assume d: "distinct (map snd (canvas_users w c))" and p: "p \<in> set (canvas_users w c)"
  from p have q: "(fst p, snd p) \<in> set (canvas_users w c)" by simp
  show "sent_to (snd p) (broadcast_events w m ex (canvas_users w c)) =
           (if ex \<noteq> Some (fst p) \<and> readyState (socks w (snd p)) = OPEN then [Wire m] else [])"
  proof (cases "ex = Some (fst p)")
    case True
    with excluded_gets_nothing [OF d q, of w m] show ?thesis by simp
  next
    case False
    with others_get_one [OF d q, of ex w m] show ?thesis by simp
  qed
qed (simp_all add: broadcastToCanvas_log stringified_broadcast_events unregistered_after_broadcast)

lemma w_two_facts:
  "canvas_users w_two 5 = [(7, 1), (8, 2)]"
  "readyState (socks w_two 1) = OPEN" "readyState (socks w_two 2) = OPEN"
  "\<not> send_throws (socks w_two 1)" "\<not> send_throws (socks w_two 2)"
  by code_simp+

theorem broadcastToCanvas_fanout_witness:
  "distinct (map fst (canvas_users w_two 5)) \<and> distinct (map snd (canvas_users w_two 5)) \<and>
   (7, 1) \<in> set (canvas_users w_two 5) \<and> (8, 2) \<in> set (canvas_users w_two 5) \<and>
   sent_to 1 (broadcast_events w_two note_msg (Some 7) (canvas_users w_two 5)) = [] \<and>
   sent_to 2 (broadcast_events w_two note_msg (Some 7) (canvas_users w_two 5)) = [Wire note_msg] \<and>
   stringified (broadcast_events w_two note_msg (Some 7) (canvas_users w_two 5)) = [note_msg] \<and>
   canvas_users (broadcastToCanvas 5 note_msg (Some 7) w_two) 5 = [(7, 1), (8, 2)]"
proof -
  note f = w_two_facts
  have d: "distinct (map fst (canvas_users w_two 5))" "distinct (map snd (canvas_users w_two 5))"
    and i: "(7, 1) \<in> set (canvas_users w_two 5)" "(8, 2) \<in> set (canvas_users w_two 5)"
    by (simp_all add: f(1))
  note t = broadcastToCanvas_fanout [where c = 5 and m = note_msg and ex = "Some 7" and w = w_two]
  from t d(2) i(1) have 1: "sent_to 1 (broadcast_events w_two note_msg (Some 7) (canvas_users w_two 5)) = []"
    by fastforce
  from t d(2) i(2) f(3)
  have 2: "sent_to 2 (broadcast_events w_two note_msg (Some 7) (canvas_users w_two 5)) = [Wire note_msg]"
    by fastforce
  from t have 3: "stringified (broadcast_events w_two note_msg (Some 7) (canvas_users w_two 5)) = [note_msg]"
    by (simp add: f(1))
  from t d(1) have "canvas_users (broadcastToCanvas 5 note_msg (Some 7) w_two) 5 =
      filter (\<lambda>p. \<not> failing w_two (Some 7) p) (canvas_users w_two 5)"
    by blast
  then have 4: "canvas_users (broadcastToCanvas 5 note_msg (Some 7) w_two) 5 = [(7, 1), (8, 2)]"
    by (simp add: f failing_def)
  from d i 1 2 3 4 show ?thesis by blast
qed

lemma w_dup_facts:
  "canvas_users w_dup 5 = [(7, 1), (8, 1)]" "readyState (socks w_dup 1) = OPEN"
  by code_simp+

text \<open>
  A socket that has spoken under two user ids of a canvas is registered under both, and
  a broadcast that excludes one of them reaches it through the other.
\<close>

theorem excluded_user_still_reached:
  "map_of (canvas_users w_dup 5) 7 = Some 1 \<and> readyState (socks w_dup 1) = OPEN \<and>
   log (broadcastToCanvas 5 note_msg (Some 7) w_dup) =
     log w_dup @ broadcast_events w_dup note_msg (Some 7) (canvas_users w_dup 5) \<and>
   sent_to 1 (broadcast_events w_dup note_msg (Some 7) (canvas_users w_dup 5)) = [Wire note_msg] \<and>
   sent_to 1 (broadcast_events w_dup note_msg (Some 9) (canvas_users w_dup 5)) =
     [Wire note_msg, Wire note_msg]"
  using w_dup_facts
  by (simp add: broadcastToCanvas_log sent_to_broadcast_events recipients_def)

subsection \<open>Malformed messages\<close>

lemma try_send_json_world:
  "try_send_json s m w = w\<lparr>log := log w @ [Stringify m, Send s (Wire m)]\<rparr>"
  by (simp add: try_send_json_def ws_send_def emit_def)

lemma on_message_malformed:
  assumes "readyState (socks w s) = OPEN" "malformed data"
  shows "on_message now s data w = try_send_json s (error_reply data) w"
proof (cases data)
  case NotJson
  with assms show ?thesis by (simp add: on_message_def error_reply_def)
next
  case JsonNull
  with assms show ?thesis by (simp add: malformed_def)
next
  case (Envelope e)
  with assms show ?thesis
    by (auto simp: on_message_def error_reply_def malformed_def shape_ok_def split: option.splits)
qed

text \<open>
  Claim C6, as the code has it.  On an open socket, a text that is not JSON, and an
  envelope whose \<open>canvasId\<close>, \<open>userId\<close> or \<open>type\<close> is missing or falsy, is answered with
  one \<open>error\<close> envelope to the sender and changes nothing else: the sockets (so the
  connection stays open), the clients and the registry are as before, and nothing is
  broadcast.  The \<open>username\<close> is not part of the check.
\<close>

theorem malformed_message_rejected:
  assumes "readyState (socks w s) = OPEN" "malformed data"
  shows "m_type (error_reply data) = ''error'' \<and>
         on_message now s data w =
           w\<lparr>log := log w @ [Stringify (error_reply data), Send s (Wire (error_reply data))]\<rparr>"
  using on_message_malformed [OF assms]
  by (simp add: try_send_json_world error_reply_def error_msg_def server_msg_def
      split: inbound.split)

lemma w_one_facts:
  "readyState (socks w_one 1) = OPEN" "registry w_one = []"
  by code_simp+

theorem malformed_message_rejected_witness:
  "readyState (socks w_one 1) = OPEN \<and> malformed NotJson \<and>
   malformed (Envelope \<lparr>e_type = Some ''join-canvas'', e_payload = None, e_canvasId = None,
                e_userId = Some 7, e_username = Some ''ann''\<rparr>) \<and>
   registry (on_message 0 1 NotJson w_one) = [] \<and>
   registry (on_message 0 1 (Envelope \<lparr>e_type = Some ''join-canvas'', e_payload = None,
                e_canvasId = None, e_userId = Some 7, e_username = Some ''ann''\<rparr>) w_one) = [] \<and>
   map m_type (stringified (drop (length (log w_one)) (log (on_message 0 1 NotJson w_one)))) = [''error'']"
proof -
  define e where "e = \<lparr>e_type = Some ''join-canvas'', e_payload = None, e_canvasId = None,
                e_userId = Some 7, e_username = Some ''ann''\<rparr>"
  have o: "readyState (socks w_one 1) = OPEN" by (rule w_one_facts)
  have m: "malformed NotJson" "malformed (Envelope e)"
    by (simp_all add: malformed_def shape_ok_def e_def)
  note a = malformed_message_rejected [OF o m(1), of 0]
  note b = malformed_message_rejected [OF o m(2), of 0]
  from a have 1: "registry (on_message 0 1 NotJson w_one) = []"
    by (simp add: w_one_facts)
  from b have 2: "registry (on_message 0 1 (Envelope e) w_one) = []"
    by (simp add: w_one_facts)
  from a have 3: "map m_type (stringified (drop (length (log w_one)) (log (on_message 0 1 NotJson w_one)))) = [''error'']"
    by simp
  from o m 1 2 3 show ?thesis
    unfolding e_def by blast
qed

text \<open>An envelope without a username passes the check and registers its socket.\<close>

theorem message_without_username_accepted:
  "\<not> malformed (envelope_of ''join-canvas'' 5 7 None) \<and>
   readyState (socks w_one 1) = OPEN \<and>
   canvas_users w_one 5 = [] \<and>
   canvas_users (on_message 0 1 (envelope_of ''join-canvas'' 5 7 None) w_one) 5 = [(7, 1)] \<and>
   map m_type (stringified (drop (length (log w_one))
       (log (on_message 0 1 (envelope_of ''join-canvas'' 5 7 None) w_one)))) =
     [''connection-acknowledged'', ''active-users'', ''user-joined'']"
  by code_simp

subsection \<open>Registration\<close>

lemma ws_close_simps [simp]:
  "clients (ws_close s code w) = clients w" "registry (ws_close s code w) = registry w"
  "log (ws_close s code w) = log w @ [Close s code]"
  "canvas_users (ws_close s code w) c = canvas_users w c"
  "s' \<noteq> s \<Longrightarrow> socks (ws_close s code w) s' = socks w s'"
  "isAlive (socks (ws_close s code w) s') = isAlive (socks w s')"
  by (simp_all add: ws_close_def canvas_users_def)

lemma register_users:
  "canvas_users (register s c u n w) c' =
     (if c' = c
      then (if map_of (canvas_users w c) u = Some s then AList.update u s (canvas_users w c)
            else AList.update u s (AList.delete u (canvas_users w c)))
      else canvas_users w c')"
proof (cases "map_of (canvas_users w c) u")
  case None
  then have "u \<notin> fst ` set (canvas_users w c)"
    by (simp add: map_of_eq_None_iff)
  then have "AList.delete u (canvas_users w c) = canvas_users w c"
    by simp
  with None show ?thesis
    by (simp add: register_def Let_def)
next
  case (Some existing)
  then show ?thesis
    by (simp add: register_def Let_def)
qed

lemma register_lookup: "map_of (canvas_users (register s c u n w) c) u = Some s"
  by (simp add: register_users update_conv')

lemma register_log: "log (register s c u n w) = log w @ eviction w s c u"
  by (simp add: register_def Let_def eviction_def split: option.split)

lemma register_clients [simp]: "clients (register s c u n w) = clients w"
  by (simp add: register_def Let_def split: option.split)

lemma register_readyState: "readyState (socks (register s c u n w) s) = readyState (socks w s)"
  by (simp add: register_def Let_def split: option.split)

lemma registry_wf_update_sock [simp]: "registry_wf (update_sock s f w) = registry_wf w"
  by (simp add: registry_wf_def)

lemma registry_wf_emit [simp]: "registry_wf (emit e w) = registry_wf w"
  by (simp add: registry_wf_def)

lemma registry_wf_ws_close [simp]: "registry_wf (ws_close s code w) = registry_wf w"
  by (simp add: registry_wf_def)

lemma registry_wf_try_send [simp]: "registry_wf (try_send_json s m w) = registry_wf w"
  by (simp add: registry_wf_def)

lemma registry_wf_register: "registry_wf w \<Longrightarrow> registry_wf (register s c u n w)"
  by (simp add: register_def Let_def registry_wf_users_set registry_wf_users_delete
      split: option.split)

lemma map_of_filter_keys:
  "map_of (filter (\<lambda>p. fst p \<notin> F) us) u = (if u \<in> F then None else map_of us u)"
  by (induction us) auto

lemma broadcast_keeps_excluded:
  "map_of (canvas_users (broadcastToCanvas c m (Some u) w) c) u = map_of (canvas_users w c) u"
  by (auto simp: broadcastToCanvas_users map_of_filter_keys failing_def)


subsection \<open>Joining\<close>


lemma w_lobby_open: "readyState (socks w_lobby 3) = OPEN"
  by code_simp




subsection \<open>One registration for each canvas and user\<close>

lemma on_message_well_formed:
  assumes "readyState (socks w s) = OPEN"
    and "e_canvasId e = Some c" "e_userId e = Some u" "e_type e = Some kind"
    and "c \<noteq> 0" "u \<noteq> 0" "kind \<noteq> []"
  shows "on_message now s (Envelope e) w =
    dispatch s kind e c u
      (try_send_json s (ack_msg now c u (e_username e) (canvas_users (register s c u (e_username e) w) c))
         (register s c u (e_username e) w))"
  using assms by (simp add: on_message_def Let_def ack_msg_def)

lemma registry_wf_dispatch: "registry_wf w \<Longrightarrow> registry_wf (dispatch s kind e c u w)"
  by (simp add: dispatch_def Let_def registry_wf_broadcastToCanvas registry_wf_users_set
      registry_wf_users_delete)

lemma registry_wf_on_message: "registry_wf w \<Longrightarrow> registry_wf (on_message now s data w)"
  by (auto simp: on_message_def Let_def registry_wf_dispatch registry_wf_register
      split: inbound.splits option.splits)

lemma registry_on_connection [simp]: "registry (on_connection now s w) = registry w"
  by (simp add: on_connection_def)

lemma registry_heartbeat [simp]: "registry (heartbeat now s w) = registry w"
  by (simp add: heartbeat_def Let_def)

lemma ws_terminate_simps [simp]:
  "clients (ws_terminate s w) = clients w" "registry (ws_terminate s w) = registry w"
  "log (ws_terminate s w) = log w @ [Terminate s]"
  "s' \<noteq> s \<Longrightarrow> socks (ws_terminate s w) s' = socks w s'"
  "isAlive (socks (ws_terminate s w) s') = isAlive (socks w s')"
  "ping_throws (socks (ws_terminate s w) s') = ping_throws (socks w s')"
  by (simp_all add: ws_terminate_def)

lemma ws_ping_simps [simp]:
  "clients (snd (ws_ping s w)) = clients w" "registry (snd (ws_ping s w)) = registry w"
  "log (snd (ws_ping s w)) = log w @ [Ping s]" "socks (snd (ws_ping s w)) = socks w"
  "fst (ws_ping s w) = (\<not> ping_throws (socks w s))"
  by (simp_all add: ws_ping_def)

lemma ping_client_unfold:
  "ping_client s w =
     (if \<not> isAlive (socks w s) then ws_terminate s w
      else if ping_throws (socks w s)
      then ws_terminate s (emit (Ping s) (update_sock s (\<lambda>k. k\<lparr>isAlive := False\<rparr>) w))
      else emit (Ping s) (update_sock s (\<lambda>k. k\<lparr>isAlive := False\<rparr>) w))"
  by (simp add: ping_client_def ws_ping_def)

lemma ping_client_frame [simp]:
  "registry (ping_client s w) = registry w" "clients (ping_client s w) = clients w"
  by (simp_all add: ping_client_unfold)

lemma fold_ping_client_frame [simp]:
  "registry (fold ping_client ss w) = registry w" "clients (fold ping_client ss w) = clients w"
  by (induction ss arbitrary: w) simp_all

lemma registry_ping_round [simp]: "registry (ping_round w) = registry w"
  by (simp add: ping_round_def)

lemma registry_wf_cong: "registry w' = registry w \<Longrightarrow> registry_wf w' = registry_wf w"
  by (simp add: registry_wf_def)

lemma registry_wf_scan_users:
  "registry_wf w \<Longrightarrow> registry_wf (scan_users s c us w)"
  by (induction us arbitrary: w)
     (simp_all add: registry_wf_broadcastToCanvas registry_wf_users_delete)

lemma registry_wf_scan_canvases:
  "registry_wf w \<Longrightarrow> registry_wf (scan_canvases s cs w)"
  by (induction cs arbitrary: w) (simp_all add: registry_wf_scan_users)

lemma registry_wf_close_handler: "registry_wf w \<Longrightarrow> registry_wf (close_handler s w)"
  by (simp add: close_handler_def registry_wf_scan_canvases registry_wf_broadcastToCanvas
      registry_wf_users_delete split: option.split)

lemma registry_wf_on_close: "registry_wf w \<Longrightarrow> registry_wf (on_close s w)"
proof -
  assume wf: "registry_wf w"
  have "registry_wf (update_sock s (\<lambda>k. k\<lparr>readyState := CLOSED\<rparr>) (w\<lparr>clients := removeAll s (clients w)\<rparr>))"
    using wf by (simp add: registry_wf_def)
  then show ?thesis
    unfolding on_close_def by (rule registry_wf_close_handler)
qed

lemma registry_wf_step: "registry_wf w \<Longrightarrow> registry_wf (step now i w)"
  by (cases i)
     (simp_all add: registry_wf_on_message registry_wf_on_close
        registry_wf_cong [OF registry_on_connection] registry_wf_cong [OF registry_heartbeat]
        registry_wf_cong [OF registry_ping_round])

lemma registry_wf_run: "registry_wf w \<Longrightarrow> registry_wf (run now inputs w)"
  unfolding run_def by (induction inputs arbitrary: w) (simp_all add: registry_wf_step)

lemma registry_wf_initial: "registry_wf initial_world"
  by (simp add: registry_wf_def initial_world_def)

lemma registrations_distinct:
  "distinct (map fst us) \<Longrightarrow>
   map snd (filter (\<lambda>p. fst p = u) us) = (case map_of us u of None \<Rightarrow> [] | Some s \<Rightarrow> [s])"
proof (induction us)
  case Nil
  show ?case by simp
next
  case (Cons p us)
  show ?case
  proof (cases "fst p = u")
    case True
    with Cons.prems have "u \<notin> fst ` set us" by auto
    then have "filter (\<lambda>p. fst p = u) us = []"
      by (auto simp: filter_empty_conv)
    with True show ?thesis by (cases p) simp
  next
    case False
    with Cons show ?thesis by (cases p) simp
  qed
qed

lemma registrations_wf:
  "registry_wf w \<Longrightarrow>
   registrations w c u = (case map_of (canvas_users w c) u of None \<Rightarrow> [] | Some s \<Rightarrow> [s])"
  unfolding registrations_def registry_wf_alt by (simp add: registrations_distinct)

lemma registrations_at_most_one: "registry_wf w \<Longrightarrow> length (registrations w c u) \<le> 1"
  by (simp add: registrations_wf split: option.split)

lemma log_extends_refl [simp]: "log_extends w w"
  by (simp add: log_extends_def)

lemma log_extends_trans: "log_extends w w1 \<Longrightarrow> log_extends w1 w2 \<Longrightarrow> log_extends w w2"
  by (auto simp: log_extends_def)

lemma log_extends_same: "log w' = log w \<Longrightarrow> log_extends w w'"
  by (simp add: log_extends_def)

lemma log_extends_append: "log w' = log w @ evs \<Longrightarrow> log_extends w w'"
  by (auto simp: log_extends_def)

lemma log_extends_broadcast [simp]: "log_extends w (broadcastToCanvas c m ex w)"
  by (rule log_extends_append) (rule broadcastToCanvas_log)

lemma log_extends_try_send [simp]: "log_extends w (try_send_json s m w)"
  by (rule log_extends_append) simp

lemma log_extends_users_set: "log_extends w w' \<Longrightarrow> log_extends w (users_set c u s w')"
  by (simp add: log_extends_def)

lemma log_extends_users_delete: "log_extends w w' \<Longrightarrow> log_extends w (users_delete c u w')"
  by (simp add: log_extends_def)

lemma log_extends_update_sock: "log_extends w w' \<Longrightarrow> log_extends w (update_sock s f w')"
  by (simp add: log_extends_def)

lemma log_extends_after:
  "log_extends w w1 \<Longrightarrow> (\<And>v. log_extends v (f v)) \<Longrightarrow> log_extends w (f w1)"
  by (blast intro: log_extends_trans)

lemma log_extends_dispatch: "log_extends w (dispatch s kind e c u w)"
proof -
  have j: "log_extends w (users_set c u s w)"
    by (rule log_extends_users_set) simp
  have 1: "log_extends w (broadcastToCanvas c m ex (try_send_json s m' w1))"
    if "log_extends w w1" for m ex m' w1
    using that by (blast intro: log_extends_trans log_extends_try_send log_extends_broadcast)
  have 2: "log_extends w (users_delete c u (broadcastToCanvas c m ex w))" for m ex
    by (rule log_extends_users_delete) simp
  show ?thesis
    by (simp add: dispatch_def Let_def 1 2 j log_extends_update_sock)
qed

lemma dispatch_keeps_sender:
  assumes "map_of (canvas_users w c) u = Some s" "kind \<noteq> ''leave-canvas''"
  shows "map_of (canvas_users (dispatch s kind e c u w) c) u = Some s"
  using assms by (simp add: dispatch_def Let_def broadcast_keeps_excluded)

lemma new_events_append: "log w' = log w @ evs \<Longrightarrow> new_events w w' = evs"
  by (simp add: new_events_def)

lemma register_registrations:
  "registry_wf w \<Longrightarrow> registrations (register s c u n w) c u = [s]"
  by (simp add: registrations_wf [OF registry_wf_register] register_lookup)

lemma eviction_of_other:
  assumes "registry_wf w" "registrations w c u = [s']" "s' \<noteq> s"
  shows "eviction w s c u = [Close s' 1000]"
proof -
  from assms(1,2) have "map_of (canvas_users w c) u = Some s'"
    by (simp add: registrations_wf split: option.splits)
  with assms(3) show ?thesis by (simp add: eviction_def)
qed

lemma on_message_registrations:
  assumes wf: "registry_wf w" and o: "readyState (socks w s) = OPEN"
    and e: "e_canvasId e = Some c" "e_userId e = Some u" "e_type e = Some kind"
    and nz: "c \<noteq> 0" "u \<noteq> 0" "kind \<noteq> []" and k: "kind \<noteq> ''leave-canvas''"
  shows "registrations (on_message now s (Envelope e) w) c u = [s]"
    and "registrations w c u = [s'] \<Longrightarrow> s' \<noteq> s \<Longrightarrow>
         Close s' 1000 \<in> set (new_events w (on_message now s (Envelope e) w))"
proof -
  define w1 where "w1 = register s c u (e_username e) w"
  define w2 where "w2 = try_send_json s (ack_msg now c u (e_username e) (canvas_users w1 c)) w1"
  have m: "on_message now s (Envelope e) w = dispatch s kind e c u w2"
    unfolding w2_def w1_def by (rule on_message_well_formed [OF o e nz])
  have "map_of (canvas_users w2 c) u = Some s"
    by (simp add: w2_def w1_def register_lookup)
  from dispatch_keeps_sender [OF this k]
  have "map_of (canvas_users (on_message now s (Envelope e) w) c) u = Some s"
    unfolding m .
  then show "registrations (on_message now s (Envelope e) w) c u = [s]"
    by (simp add: registrations_wf [OF registry_wf_on_message [OF wf]])
  from log_extends_dispatch [of w2 s kind e c u]
  obtain evs where "log (on_message now s (Envelope e) w) = log w2 @ evs"
    unfolding m log_extends_def by blast
  then have l: "log (on_message now s (Envelope e) w) =
      log w @ (eviction w s c u @ [Stringify (ack_msg now c u (e_username e) (canvas_users w1 c)),
        Send s (Wire (ack_msg now c u (e_username e) (canvas_users w1 c)))] @ evs)"
    by (simp add: w2_def w1_def register_log)
  assume "registrations w c u = [s']" "s' \<noteq> s"
  from eviction_of_other [OF wf this] new_events_append [OF l]
  show "Close s' 1000 \<in> set (new_events w (on_message now s (Envelope e) w))"
    by simp
qed

text \<open>
  Claim C3.  In every world the server can reach from its start, whatever the inputs,
  each canvas and each user id has at most one registered socket.  A registration puts
  the registering socket under its (canvasId, userId) as the only one; when another
  socket was registered there, the one call the registration makes is \<open>close\<close> with code
  1000 on that socket.  After the whole handling of a well-formed message on an open
  socket (of any kind but \<open>leave-canvas\<close>, which unregisters the sender at its end) the
  sender is the one socket registered under the pair and the replaced socket has been
  sent its \<open>close\<close>.
\<close>

theorem one_registration_per_canvas_user:
  "registry_wf (run now inputs initial_world) \<and>
   length (registrations (run now inputs initial_world) c u) \<le> 1 \<and>
   (registry_wf w \<longrightarrow>
      registrations (register s c u n w) c u = [s] \<and>
      new_events w (register s c u n w) = eviction w s c u \<and>
      (\<forall>s'. registrations w c u = [s'] \<and> s' \<noteq> s \<longrightarrow> eviction w s c u = [Close s' 1000])) \<and>
   (registry_wf w \<and> readyState (socks w s) = OPEN \<and>
    e_canvasId e = Some c \<and> e_userId e = Some u \<and> e_type e = Some kind \<and>
    c \<noteq> 0 \<and> u \<noteq> 0 \<and> kind \<noteq> [] \<and> kind \<noteq> ''leave-canvas'' \<longrightarrow>
      registrations (on_message now s (Envelope e) w) c u = [s] \<and>
      (\<forall>s'. registrations w c u = [s'] \<and> s' \<noteq> s \<longrightarrow>
         Close s' 1000 \<in> set (new_events w (on_message now s (Envelope e) w))))"
proof (intro conjI impI allI)
  show "registry_wf (run now inputs initial_world)"
    by (rule registry_wf_run [OF registry_wf_initial])
  then show "length (registrations (run now inputs initial_world) c u) \<le> 1"
    by (rule registrations_at_most_one)
next
  assume "registry_wf w"
  then show "registrations (register s c u n w) c u = [s]"
    by (rule register_registrations)
next
  show "new_events w (register s c u n w) = eviction w s c u"
    by (rule new_events_append) (rule register_log)
next
  fix s' assume "registry_wf w" "registrations w c u = [s'] \<and> s' \<noteq> s"
  then show "eviction w s c u = [Close s' 1000]"
    by (blast intro: eviction_of_other)
next
  assume a: "registry_wf w \<and> readyState (socks w s) = OPEN \<and>
    e_canvasId e = Some c \<and> e_userId e = Some u \<and> e_type e = Some kind \<and>
    c \<noteq> 0 \<and> u \<noteq> 0 \<and> kind \<noteq> [] \<and> kind \<noteq> ''leave-canvas''"
  then show "registrations (on_message now s (Envelope e) w) c u = [s]"
    by (blast intro: on_message_registrations(1))
next
  fix s'
  assume a: "registry_wf w \<and> readyState (socks w s) = OPEN \<and>
    e_canvasId e = Some c \<and> e_userId e = Some u \<and> e_type e = Some kind \<and>
    c \<noteq> 0 \<and> u \<noteq> 0 \<and> kind \<noteq> [] \<and> kind \<noteq> ''leave-canvas''"
    and b: "registrations w c u = [s'] \<and> s' \<noteq> s"
  then show "Close s' 1000 \<in> set (new_events w (on_message now s (Envelope e) w))"
    by (blast intro: on_message_registrations(2))
qed

lemma w_lobby_run:
  "w_lobby = run 0 [Connect 1, Message 1 (envelope_of ''join-canvas'' 5 7 (Some ''ann'')),
                  Connect 2, Message 2 (envelope_of ''join-canvas'' 5 8 (Some ''bob'')),
                  Connect 3] initial_world"
  by (simp add: w_lobby_def w_two_def run_def)

lemma w_lobby_registered: "registrations w_lobby 5 7 = [1]"
  by code_simp

theorem one_registration_per_canvas_user_witness:
  "registry_wf w_lobby \<and> readyState (socks w_lobby 3) = OPEN \<and>
   registrations w_lobby 5 7 = [1] \<and>
   registrations (register 3 5 7 (Some ''ann'') w_lobby) 5 7 = [3] \<and>
   new_events w_lobby (register 3 5 7 (Some ''ann'') w_lobby) = [Close 1 1000] \<and>
   registrations (on_message 0 3 (envelope_of ''join-canvas'' 5 7 (Some ''ann'')) w_lobby) 5 7 = [3] \<and>
   Close 1 1000 \<in> set (new_events w_lobby
      (on_message 0 3 (envelope_of ''join-canvas'' 5 7 (Some ''ann'')) w_lobby))"
proof -
  define e where "e = \<lparr>e_type = Some ''join-canvas'', e_payload = None, e_canvasId = Some 5,
      e_userId = Some 7, e_username = Some ''ann''\<rparr>"
  have ee: "envelope_of ''join-canvas'' 5 7 (Some ''ann'') = Envelope e"
    by (simp add: envelope_of_def e_def)
  note t = one_registration_per_canvas_user
    [where now = 0 and w = w_lobby and s = 3 and c = 5 and u = 7 and n = "Some ''ann''" and e = e
       and kind = "''join-canvas''"
       and inputs = "[Connect 1, Message 1 (envelope_of ''join-canvas'' 5 7 (Some ''ann'')),
                  Connect 2, Message 2 (envelope_of ''join-canvas'' 5 8 (Some ''bob'')),
                  Connect 3]", folded w_lobby_run]
  from t have wf: "registry_wf w_lobby"
    by blast
  note o = w_lobby_open
  note r = w_lobby_registered
  have d: "(1::nat) \<noteq> 3" by simp
  from t wf have 1: "registrations (register 3 5 7 (Some ''ann'') w_lobby) 5 7 = [3]"
    and 2: "new_events w_lobby (register 3 5 7 (Some ''ann'') w_lobby) = eviction w_lobby 3 5 7"
    by blast+
  from t wf r d have 3: "eviction w_lobby 3 5 7 = [Close 1 1000]"
    by blast
  have h: "e_canvasId e = Some 5" "e_userId e = Some 7" "e_type e = Some ''join-canvas''"
    "(5::int) \<noteq> 0" "(7::int) \<noteq> 0" "''join-canvas'' \<noteq> []" "''join-canvas'' \<noteq> ''leave-canvas''"
    by (simp_all add: e_def)
  from t wf o h have 4: "registrations (on_message 0 3 (Envelope e) w_lobby) 5 7 = [3]"
    and 5: "\<forall>s'. registrations w_lobby 5 7 = [s'] \<and> s' \<noteq> 3 \<longrightarrow>
         Close s' 1000 \<in> set (new_events w_lobby (on_message 0 3 (Envelope e) w_lobby))"
    by blast+
  from 5 r d have 6: "Close 1 1000 \<in> set (new_events w_lobby (on_message 0 3 (Envelope e) w_lobby))"
    by blast
  from wf o r 1 2 3 4 6 show ?thesis
    unfolding ee by simp
qed

end
